theory Spec2Isabelle
  imports Main "HOL-Library.Word" "HOL-Library.Finite_Map"
begin

unbundle bit_operations_syntax

section \<open>Machine types\<close>

type_synonym u8 = "8 word"
type_synonym u32 = "32 word"

text \<open>
  Behaviour the C and C++ standards leave undefined is a value of its own: a shift by
  at least the width of the (promoted) left operand, an access outside an array, a
  dereference of a pointer that holds no object, and a read of an uninitialised local.
\<close>

datatype undefined_behaviour =
  ShiftCountTooLarge | IndexOutOfBounds | InvalidPointer | UninitialisedRead

text \<open>Sequencing: the first undefined step decides the outcome.\<close>

definition then_ub ::
  "undefined_behaviour + 'a \<Rightarrow> ('a \<Rightarrow> undefined_behaviour + 'b) \<Rightarrow> undefined_behaviour + 'b" where
  "then_ub r f = (case r of Inl e \<Rightarrow> Inl e | Inr x \<Rightarrow> f x)"

text \<open>\<^verbatim>\<open>x << n\<close> and \<^verbatim>\<open>x >> n\<close> on a 32-bit operand with a \<^verbatim>\<open>u32\<close> count.\<close>

definition shl_u32 :: "u32 \<Rightarrow> u32 \<Rightarrow> undefined_behaviour + u32" where
  "shl_u32 x n = (if 32 \<le> unat n then Inl ShiftCountTooLarge else Inr (push_bit (unat n) x))"

definition shr_u32 :: "u32 \<Rightarrow> u32 \<Rightarrow> undefined_behaviour + u32" where
  "shr_u32 x n = (if 32 \<le> unat n then Inl ShiftCountTooLarge else Inr (drop_bit (unat n) x))"

section \<open>libspu/key.hpp: the key compiler\<close>

record 'n FieldLengthStruct =
  name_len :: 'n
  length_len :: u32

record 'n FieldDataStruct =
  name_data :: 'n
  data_data :: u32

type_synonym 'n FiledsLengthVector = "'n FieldLengthStruct list"
type_synonym 'n FieldsDataVector = "'n FieldDataStruct list"

text \<open>
  \<^verbatim>\<open>Key::mask\<close>: the loop \<^verbatim>\<open>for (u32 i = 0; i < len; i++) mask |= 1 << i;\<close>.
  The left operand \<^verbatim>\<open>1\<close> is a 32-bit \<^verbatim>\<open>int\<close>: \<^verbatim>\<open>1 << 31\<close> is its sign bit, which
  the conversion to \<^verbatim>\<open>u32\<close> makes bit 31 of the mask, and the iteration \<open>i = 32\<close>, which
  a length above 32 reaches, shifts by the full width.
\<close>

fun mask_loop :: "nat \<Rightarrow> u32 \<Rightarrow> u32" where
  "mask_loop 0 m = m"
| "mask_loop (Suc i) m = mask_loop i m OR push_bit i 1"

definition mask_key :: "u32 \<Rightarrow> undefined_behaviour + u32" where
  "mask_key len = (if 32 < unat len then Inl ShiftCountTooLarge else Inr (mask_loop (unat len) 0))"

text \<open>\<^verbatim>\<open>Key::find_data_by_name\<close>: the first entry with the name, 0 when there is none.\<close>

fun find_data_by_name :: "'n FieldsDataVector \<Rightarrow> 'n \<Rightarrow> u32" where
  "find_data_by_name [] name = 0"
| "find_data_by_name (field_data_struct # rest) name =
     (if name_data field_data_struct = name then data_data field_data_struct
      else find_data_by_name rest name)"

text \<open>\<^verbatim>\<open>key[weight] |= x\<close> on the caller's array of \<^verbatim>\<open>SPU_WEIGHT\<close> words.\<close>

definition or_into :: "u32 list \<Rightarrow> u8 \<Rightarrow> u32 \<Rightarrow> undefined_behaviour + u32 list" where
  "or_into key weight x =
     (if unat weight < length key then Inr (key[unat weight := key ! unat weight OR x])
      else Inl IndexOutOfBounds)"

text \<open>
  One iteration of the loop of \<^verbatim>\<open>Key::compileKey\<close> over the length vector. The state is
  the key array, \<^verbatim>\<open>shift\<close> and \<^verbatim>\<open>weight\<close>; \<open>W\<close> is the constant \<^verbatim>\<open>SPU_WEIGHT\<close> of
  \<^verbatim>\<open>spu.h\<close>, a header that is not part of the sources at hand. The comparison
  \<^verbatim>\<open>weight < SPU_WEIGHT-1\<close> is made on \<^verbatim>\<open>int\<close>.
\<close>

definition compile_field ::
  "nat \<Rightarrow> 'n FieldsDataVector \<Rightarrow> u32 list \<times> u32 \<times> u8 \<Rightarrow> 'n FieldLengthStruct
     \<Rightarrow> undefined_behaviour + (u32 list \<times> u32 \<times> u8)" where
  "compile_field W fields_data_vector st field_length_struct =
     (case st of (key, shift, weight) \<Rightarrow>
      let field_data = find_data_by_name fields_data_vector (name_len field_length_struct) in
      then_ub (mask_key (length_len field_length_struct)) (\<lambda>field_mask.
      let field = field_data AND field_mask in
      then_ub (shl_u32 field shift) (\<lambda>shifted.
      then_ub (or_into key weight shifted) (\<lambda>key1.
      let prev_shift = shift;
          shift1 = shift + length_len field_length_struct in
      if 32 \<le> unat shift1 \<and> int (unat weight) < int W - 1 then
        let shift2 = shift1 - 32;
            weight2 = weight + 1 in
        then_ub (shr_u32 field (length_len field_length_struct - prev_shift)) (\<lambda>field2.
        then_ub (mask_key shift2) (\<lambda>portion.
        then_ub (or_into key1 weight2 (field2 AND portion)) (\<lambda>key2.
        Inr (key2, shift2, weight2))))
      else Inr (key1, shift1, weight)))))"

fun compile_loop ::
  "nat \<Rightarrow> 'n FieldsDataVector \<Rightarrow> 'n FiledsLengthVector \<Rightarrow> u32 list \<times> u32 \<times> u8
     \<Rightarrow> undefined_behaviour + (u32 list \<times> u32 \<times> u8)" where
  "compile_loop W fields_data_vector [] st = Inr st"
| "compile_loop W fields_data_vector (field_length_struct # rest) st =
     then_ub (compile_field W fields_data_vector st field_length_struct)
       (compile_loop W fields_data_vector rest)"

text \<open>
  \<^verbatim>\<open>Key::compileKey\<close>: \<open>fields_len_vec\<close> is the member the constructor stored, \<open>key\<close> the
  array as the caller passes it. The result is the returned \<^verbatim>\<open>bool\<close> and the array as
  the call leaves it.
\<close>

definition compileKey ::
  "nat \<Rightarrow> 'n FiledsLengthVector \<Rightarrow> u32 list \<Rightarrow> 'n FieldsDataVector
     \<Rightarrow> undefined_behaviour + (bool \<times> u32 list)" where
  "compileKey W fields_len_vec key fields_data_vector =
     then_ub (compile_loop W fields_data_vector fields_len_vec (key, 0, 0))
       (\<lambda>(key', shift, weight). Inr (True, key'))"

section \<open>Result codes and pairs\<close>

text \<open>
  Modelled from the spec: the result codes \<^verbatim>\<open>OK\<close> and \<^verbatim>\<open>ERR\<close> of \<^verbatim>\<open>spu.h\<close>, a header
  that is not part of the sources at hand ("Status is one of {Ok, Error}").
\<close>

datatype status_t = OK | ERR

text \<open>
  Modelled from the spec: \<^verbatim>\<open>pair_t\<close> of \<^verbatim>\<open>libspu.hpp\<close>, which is not part of the sources at
  hand ("Pair: (key, value, status)"). The sources build it in three ways:
  \<^verbatim>\<open>{key, value, status}\<close>, \<^verbatim>\<open>{key, value}\<close>, whose status the spec gives as Ok
  ("After insert(k, v), search(k) returns {k, v, Ok}"), and \<^verbatim>\<open>pair_t(status)\<close>, whose key
  and value are a sentinel that "must not be interpreted": the second constructor
  carries none.
\<close>

datatype ('k, 'v) pair_t = Pair_t 'k 'v status_t | Pair_t_status status_t

definition pair_t_kv :: "'k \<Rightarrow> 'v \<Rightarrow> ('k, 'v) pair_t" where
  "pair_t_kv k v = Pair_t k v OK"

text \<open>
  The result structures as the C++ sources read them: every result has \<^verbatim>\<open>rslt\<close>; the
  results of DELS, INS and DEL also \<^verbatim>\<open>power\<close>; those of the key-returning queries also
  \<^verbatim>\<open>key\<close> and \<^verbatim>\<open>val\<close>; that of ADDS \<^verbatim>\<open>gsid\<close>.
\<close>

record rslt_t =
  rslt_rs :: status_t

record 'g adds_rslt_t = rslt_t +
  gsid_rs :: 'g

record dels_rslt_t = rslt_t +
  power_rs :: u32

record ('k, 'v) srch_rslt_t = dels_rslt_t +
  key_rs :: 'k
  val_rs :: 'v

section \<open>simulator/Simulator.cpp: the simulation backend\<close>

text \<open>
  The store of the simulator: the global table \<^verbatim>\<open>globalStructures\<close> from an identifier to
  the address of a \<^verbatim>\<open>std::map\<close>, and the maps that \<^verbatim>\<open>new\<close> has allocated, by address.
  Nothing in the file deletes a map, so every address handed out stays valid.
\<close>

record ('g, 'k, 'v) sim_store =
  globalStructures :: "('g, nat) fmap"
  maps :: "nat \<Rightarrow> ('k, 'v) fmap"
  next_map :: nat

text \<open>A \<^verbatim>\<open>Simulator\<close> object: the identifier \<^verbatim>\<open>get_gsid()\<close> returns and the pointer \<^verbatim>\<open>_data\<close>.\<close>

record 'g Simulator =
  gsid_sim :: 'g
  data_sim :: nat

text \<open>
  The body of the constructor, after the base class has obtained the identifier \<open>g\<close>:
  attach to the map registered for \<open>g\<close>, or allocate an empty one and register it.
\<close>

definition Simulator_ctor ::
  "'g \<Rightarrow> ('g, 'k, 'v) sim_store \<Rightarrow> 'g Simulator \<times> ('g, 'k, 'v) sim_store" where
  "Simulator_ctor g st =
     (case fmlookup (globalStructures st) g of
        Some p \<Rightarrow> (\<lparr>gsid_sim = g, data_sim = p\<rparr>, st)
      | None \<Rightarrow>
          let p = next_map st in
          (\<lparr>gsid_sim = g, data_sim = p\<rparr>,
           st\<lparr>globalStructures := fmupd g p (globalStructures st),
              maps := (maps st)(p := fmempty),
              next_map := Suc p\<rparr>))"

definition deleteStructure ::
  "'g Simulator \<Rightarrow> ('g, 'k, 'v) sim_store \<Rightarrow> dels_rslt_t \<times> ('g, 'k, 'v) sim_store" where
  "deleteStructure this st =
     (\<lparr>rslt_rs = OK, power_rs = 0\<rparr>,
      st\<lparr>globalStructures := fmdrop (gsid_sim this) (globalStructures st)\<rparr>)"

text \<open>\<^verbatim>\<open>_data->size()\<close> is a \<^verbatim>\<open>size_t\<close>, returned as \<^verbatim>\<open>u32\<close>.\<close>

definition Simulator_get_power :: "'g Simulator \<Rightarrow> ('g, 'k, 'v) sim_store \<Rightarrow> u32" where
  "Simulator_get_power this st = of_nat (fcard (fmdom (maps st (data_sim this))))"

definition Simulator_insert ::
  "'g Simulator \<Rightarrow> 'k \<Rightarrow> 'v \<Rightarrow> u8 \<Rightarrow> ('g, 'k, 'v) sim_store \<Rightarrow> status_t \<times> ('g, 'k, 'v) sim_store" where
  "Simulator_insert this key value flags st =
     (OK, st\<lparr>maps := (maps st)(data_sim this := fmupd key value (maps st (data_sim this)))\<rparr>)"

definition Simulator_del ::
  "'g Simulator \<Rightarrow> 'k \<Rightarrow> u8 \<Rightarrow> ('g, 'k, 'v) sim_store \<Rightarrow> status_t \<times> ('g, 'k, 'v) sim_store" where
  "Simulator_del this key flags st =
     (OK, st\<lparr>maps := (maps st)(data_sim this := fmdrop key (maps st (data_sim this)))\<rparr>)"

definition Simulator_search ::
  "'g Simulator \<Rightarrow> 'k \<Rightarrow> u8 \<Rightarrow> ('g, 'k, 'v) sim_store \<Rightarrow> ('k, 'v) pair_t" where
  "Simulator_search this key flags st =
     (case fmlookup (maps st (data_sim this)) key of
        Some v \<Rightarrow> pair_t_kv key v
      | None \<Rightarrow> Pair_t_status ERR)"

section \<open>The constants of spu.h\<close>

text \<open>
  \<^verbatim>\<open>spu.h\<close> is not part of the sources at hand, so what the code takes from it is a
  parameter: the key width in words, the command codes and flag bits, the command mask,
  the register addresses, the shift macros, the size of each result structure, and the
  case-label groups \<^verbatim>\<open>CASE_CMDFRMT_n\<close> and \<^verbatim>\<open>CASE_RSLTFRMT_n\<close>, given as the group that
  holds a command code (\<open>None\<close>: no group, the \<^verbatim>\<open>default\<close> label).
\<close>

datatype cmdfrmt = CMDFRMT_1 | CMDFRMT_2 | CMDFRMT_3 | CMDFRMT_4 | CMDFRMT_5

datatype rsltfrmt = RSLTFRMT_0 | RSLTFRMT_1 | RSLTFRMT_2

record spu_h =
  SPU_WEIGHT :: nat
  CMD_MASK :: u8
  P_FLAG :: u8
  ADDS :: u8
  DELS :: u8
  INS :: u8
  DEL :: u8
  SRCH :: u8
  MIN_cmd :: u8
  MAX_cmd :: u8
  NEXT :: u8
  PREV :: u8
  NSM :: u8
  NGR :: u8
  CASE_CMDFRMT :: "u8 \<Rightarrow> cmdfrmt option"
  CASE_RSLTFRMT :: "u8 \<Rightarrow> rsltfrmt option"
  sizeof_rsltfrmt :: "rsltfrmt \<Rightarrow> nat"
  KEY_REG :: u32
  VAL_REG :: u32
  CMD_REG :: u32
  POWER_REG :: u32
  STATE_REG_0 :: u32
  SPU_READY_FLAG :: nat
  CMD_SHIFT :: "u8 \<Rightarrow> u32"
  STR_A_SHIFT :: "int \<Rightarrow> u32"
  STR_B_SHIFT :: "int \<Rightarrow> u32"
  STR_R_SHIFT :: "int \<Rightarrow> u32"

section \<open>libspu/base_structure.hpp: the client facade\<close>

text \<open>The command structures the facade fills in, one constructor for each type.\<close>

datatype ('g, 'k, 'v) cmd_t =
    Adds_cmd_t u8
  | Dels_cmd_t u8 'g
  | Ins_cmd_t u8 'g 'k 'v
  | Del_cmd_t u8 'g 'k
  | Srch_cmd_t u8 'g 'k
  | Min_cmd_t u8 'g
  | Max_cmd_t u8 'g
  | Next_cmd_t u8 'g 'k
  | Prev_cmd_t u8 'g 'k
  | Nsm_cmd_t u8 'g 'k
  | Ngr_cmd_t u8 'g 'k

text \<open>
  \<^verbatim>\<open>Fileops::execute\<close> is not part of the sources at hand: it is a parameter, one
  function for each shape of result the template is instantiated with, acting on the
  state \<open>'d\<close> of the device behind the file.
\<close>

record ('g, 'k, 'v, 'd) Fileops =
  execute_adds :: "('g, 'k, 'v) cmd_t \<Rightarrow> 'd \<Rightarrow> 'g adds_rslt_t \<times> 'd"
  execute_dels :: "('g, 'k, 'v) cmd_t \<Rightarrow> 'd \<Rightarrow> dels_rslt_t \<times> 'd"
  execute_srch :: "('g, 'k, 'v) cmd_t \<Rightarrow> 'd \<Rightarrow> ('k, 'v) srch_rslt_t \<times> 'd"

text \<open>The members of \<^verbatim>\<open>BaseStructure\<close>; \<open>fops_bs\<close> is the state of the device.\<close>

record ('g, 'd) BaseStructure =
  gsid_bs :: 'g
  fops_bs :: 'd
  power_bs :: u32

datatype exception = CouldNotCreateStructure

definition BaseStructure_ctor ::
  "spu_h \<Rightarrow> ('g, 'k, 'v, 'd) Fileops \<Rightarrow> 'd \<Rightarrow> exception + ('g, 'd) BaseStructure" where
  "BaseStructure_ctor H F dev =
     (let (result, dev') = execute_adds F (Adds_cmd_t (ADDS H OR P_FLAG H)) dev in
      if rslt_rs result = OK
      then Inr \<lparr>gsid_bs = gsid_rs result, fops_bs = dev', power_bs = 0\<rparr>
      else Inl CouldNotCreateStructure)"

text \<open>The destructor; the result is the object as its last statement leaves it.\<close>

definition BaseStructure_dtor ::
  "spu_h \<Rightarrow> ('g, 'k, 'v, 'd) Fileops \<Rightarrow> ('g, 'd) BaseStructure \<Rightarrow> ('g, 'd) BaseStructure" where
  "BaseStructure_dtor H F this =
     (let (result, dev') = execute_dels F (Dels_cmd_t (DELS H OR P_FLAG H) (gsid_bs this)) (fops_bs this)
      in this\<lparr>fops_bs := dev', power_bs := power_rs result\<rparr>)"

definition BaseStructure_get_power :: "('g, 'd) BaseStructure \<Rightarrow> u32" where
  "BaseStructure_get_power this = power_bs this"

definition BaseStructure_insert ::
  "spu_h \<Rightarrow> ('g, 'k, 'v, 'd) Fileops \<Rightarrow> 'k \<Rightarrow> 'v \<Rightarrow> u8 \<Rightarrow> ('g, 'd) BaseStructure
     \<Rightarrow> status_t \<times> ('g, 'd) BaseStructure" where
  "BaseStructure_insert H F key value flags this =
     (let (result, dev') = execute_dels F (Ins_cmd_t (INS H OR flags) (gsid_bs this) key value) (fops_bs this)
      in (rslt_rs result, this\<lparr>fops_bs := dev', power_bs := power_rs result\<rparr>))"

text \<open>The vectorised insert: the loop returns at the first status that is not \<^verbatim>\<open>OK\<close>.\<close>

record ('k, 'v) InsertStruct =
  key_is :: 'k
  value_is :: 'v

fun BaseStructure_insert_vector ::
  "spu_h \<Rightarrow> ('g, 'k, 'v, 'd) Fileops \<Rightarrow> ('k, 'v) InsertStruct list \<Rightarrow> u8
     \<Rightarrow> ('g, 'd) BaseStructure
     \<Rightarrow> status_t \<times> ('g, 'd) BaseStructure" where
  "BaseStructure_insert_vector H F [] flags this = (OK, this)"
| "BaseStructure_insert_vector H F (ex # rest) flags this =
     (let (status, this') = BaseStructure_insert H F (key_is ex) (value_is ex) flags this in
      if status \<noteq> OK then (status, this')
      else BaseStructure_insert_vector H F rest flags this')"

definition BaseStructure_del ::
  "spu_h \<Rightarrow> ('g, 'k, 'v, 'd) Fileops \<Rightarrow> 'k \<Rightarrow> u8 \<Rightarrow> ('g, 'd) BaseStructure
     \<Rightarrow> status_t \<times> ('g, 'd) BaseStructure" where
  "BaseStructure_del H F key flags this =
     (let (result, dev') = execute_dels F (Del_cmd_t (DEL H OR flags) (gsid_bs this) key) (fops_bs this)
      in (rslt_rs result, this\<lparr>fops_bs := dev', power_bs := power_rs result\<rparr>))"

definition BaseStructure_search ::
  "spu_h \<Rightarrow> ('g, 'k, 'v, 'd) Fileops \<Rightarrow> 'k \<Rightarrow> u8 \<Rightarrow> ('g, 'd) BaseStructure
     \<Rightarrow> ('k, 'v) pair_t \<times> ('g, 'd) BaseStructure" where
  "BaseStructure_search H F key flags this =
     (let (result, dev') = execute_srch F (Srch_cmd_t (SRCH H OR flags) (gsid_bs this) key) (fops_bs this)
      in (Pair_t (key_rs result) (val_rs result) (rslt_rs result),
          this\<lparr>fops_bs := dev', power_bs := power_rs result\<rparr>))"

definition BaseStructure_min ::
  "spu_h \<Rightarrow> ('g, 'k, 'v, 'd) Fileops \<Rightarrow> u8 \<Rightarrow> ('g, 'd) BaseStructure
     \<Rightarrow> ('k, 'v) pair_t \<times> ('g, 'd) BaseStructure" where
  "BaseStructure_min H F flags this =
     (let (result, dev') = execute_srch F (Min_cmd_t (MIN_cmd H OR flags) (gsid_bs this)) (fops_bs this)
      in (Pair_t (key_rs result) (val_rs result) (rslt_rs result),
          this\<lparr>fops_bs := dev', power_bs := power_rs result\<rparr>))"

definition BaseStructure_max ::
  "spu_h \<Rightarrow> ('g, 'k, 'v, 'd) Fileops \<Rightarrow> u8 \<Rightarrow> ('g, 'd) BaseStructure
     \<Rightarrow> ('k, 'v) pair_t \<times> ('g, 'd) BaseStructure" where
  "BaseStructure_max H F flags this =
     (let (result, dev') = execute_srch F (Max_cmd_t (MAX_cmd H OR flags) (gsid_bs this)) (fops_bs this)
      in (Pair_t (key_rs result) (val_rs result) (rslt_rs result),
          this\<lparr>fops_bs := dev', power_bs := power_rs result\<rparr>))"

definition BaseStructure_next ::
  "spu_h \<Rightarrow> ('g, 'k, 'v, 'd) Fileops \<Rightarrow> 'k \<Rightarrow> u8 \<Rightarrow> ('g, 'd) BaseStructure
     \<Rightarrow> ('k, 'v) pair_t \<times> ('g, 'd) BaseStructure" where
  "BaseStructure_next H F key flags this =
     (let (result, dev') = execute_srch F (Next_cmd_t (NEXT H OR flags) (gsid_bs this) key) (fops_bs this)
      in (Pair_t (key_rs result) (val_rs result) (rslt_rs result),
          this\<lparr>fops_bs := dev', power_bs := power_rs result\<rparr>))"

definition BaseStructure_prev ::
  "spu_h \<Rightarrow> ('g, 'k, 'v, 'd) Fileops \<Rightarrow> 'k \<Rightarrow> u8 \<Rightarrow> ('g, 'd) BaseStructure
     \<Rightarrow> ('k, 'v) pair_t \<times> ('g, 'd) BaseStructure" where
  "BaseStructure_prev H F key flags this =
     (let (result, dev') = execute_srch F (Prev_cmd_t (PREV H OR flags) (gsid_bs this) key) (fops_bs this)
      in (Pair_t (key_rs result) (val_rs result) (rslt_rs result),
          this\<lparr>fops_bs := dev', power_bs := power_rs result\<rparr>))"

definition BaseStructure_nsm ::
  "spu_h \<Rightarrow> ('g, 'k, 'v, 'd) Fileops \<Rightarrow> 'k \<Rightarrow> u8 \<Rightarrow> ('g, 'd) BaseStructure
     \<Rightarrow> ('k, 'v) pair_t \<times> ('g, 'd) BaseStructure" where
  "BaseStructure_nsm H F key flags this =
     (let (result, dev') = execute_srch F (Nsm_cmd_t (NSM H OR flags) (gsid_bs this) key) (fops_bs this)
      in (Pair_t (key_rs result) (val_rs result) (rslt_rs result),
          this\<lparr>fops_bs := dev', power_bs := power_rs result\<rparr>))"

definition BaseStructure_ngr ::
  "spu_h \<Rightarrow> ('g, 'k, 'v, 'd) Fileops \<Rightarrow> 'k \<Rightarrow> u8 \<Rightarrow> ('g, 'd) BaseStructure
     \<Rightarrow> ('k, 'v) pair_t \<times> ('g, 'd) BaseStructure" where
  "BaseStructure_ngr H F key flags this =
     (let (result, dev') = execute_srch F (Ngr_cmd_t (NGR H OR flags) (gsid_bs this) key) (fops_bs this)
      in (Pair_t (key_rs result) (val_rs result) (rslt_rs result),
          this\<lparr>fops_bs := dev', power_bs := power_rs result\<rparr>))"

section \<open>spudrv/cmdexec.c: the command executor of the driver\<close>

text \<open>The error numbers of the Linux kernel headers.\<close>

definition ENOEXEC :: int where "ENOEXEC = 8"
definition ENOMEM :: int where "ENOMEM = 12"
definition ENOKEY :: int where "ENOKEY = 126"

text \<open>
  The command buffer is a \<^verbatim>\<open>const void *\<close> that the macros \<^verbatim>\<open>CMDFRMT_n\<close> cast to the
  structure of a format: the record has the fields of all formats, each as the cast of
  its format reads it. The result buffer likewise. The arrays \<^verbatim>\<open>key\<close> and \<^verbatim>\<open>val\<close> of
  \<^verbatim>\<open>SPU_WEIGHT\<close> words are functions of the index.
\<close>

record 'g cmd_buf =
  cmd_in :: u8
  gsid_in :: 'g
  key_in :: "nat \<Rightarrow> u32"
  val_in :: "nat \<Rightarrow> u32"
  gsid_a :: 'g
  gsid_b :: 'g
  gsid_r :: 'g

record 'g res_buf =
  rslt_out :: status_t
  gsid_out :: 'g
  key_out :: "nat \<Rightarrow> u32"
  val_out :: "nat \<Rightarrow> u32"
  power_out :: u32

text \<open>
  \<^verbatim>\<open>struct pci_burst\<close>. The two arrays are pointers into the kernel heap: each is the
  memory as seen from the pointer, a function of the (signed) word index, so that
  \<open>data_b b i\<close> is what \<^verbatim>\<open>data[i]\<close> reads. The cells \<open>0 \<le> i < count\<close> are the block
  that \<^verbatim>\<open>kmalloc\<close> returned; the other cells are the memory around it.
\<close>

record pci_burst =
  count_b :: u8
  addr_shift :: "int \<Rightarrow> u32"
  data_b :: "int \<Rightarrow> u32"

text \<open>
  The rest of the kernel, none of it part of the sources at hand, as parameters acting
  on a state \<open>'w\<close> (the device behind the bus, the identifier table, the allocator):
  \<^verbatim>\<open>kmalloc\<close> for an array of words (the byte size is the argument; \<open>None\<close> is
  \<^verbatim>\<open>NULL\<close>) and for a result structure, \<^verbatim>\<open>create_gsid\<close> (given the \<^verbatim>\<open>gsid\<close> field it
  is to fill, it returns its code and the field as it leaves it) and \<^verbatim>\<open>resolve_gsid\<close>
  of \<^verbatim>\<open>gsidresolver.h\<close>, and the three bus primitives of \<^verbatim>\<open>pcidrv.h\<close>.
\<close>

record ('g, 'w) kernel =
  kmalloc :: "nat \<Rightarrow> 'w \<Rightarrow> (int \<Rightarrow> u32) option \<times> 'w"
  kmalloc_rslt :: "nat \<Rightarrow> 'w \<Rightarrow> 'g res_buf option \<times> 'w"
  create_gsid :: "'g \<Rightarrow> 'w \<Rightarrow> (int \<times> 'g) \<times> 'w"
  resolve_gsid :: "'g \<Rightarrow> u8 \<Rightarrow> 'w \<Rightarrow> int \<times> 'w"
  pci_burst_write :: "pci_burst \<Rightarrow> 'w \<Rightarrow> 'w"
  pci_single_read :: "u32 \<Rightarrow> 'w \<Rightarrow> u32 \<times> 'w"
  pci_burst_read :: "pci_burst \<Rightarrow> 'w \<Rightarrow> pci_burst \<times> 'w"

text \<open>
  \<^verbatim>\<open>alloc_rslt\<close>: the returned \<^verbatim>\<open>size_t\<close> (read as signed, so that an error is the
  negative number the source writes), and \<^verbatim>\<open>*res_buf\<close>. On the \<^verbatim>\<open>default\<close> label
  nothing is stored, and \<^verbatim>\<open>*res_buf\<close> holds no result structure.
\<close>

definition alloc_rslt ::
  "spu_h \<Rightarrow> ('g, 'w) kernel \<Rightarrow> u8 \<Rightarrow> 'w \<Rightarrow> int \<times> 'g res_buf option \<times> 'w" where
  "alloc_rslt H K cmd w =
     (case CASE_RSLTFRMT H cmd of
        None \<Rightarrow> (- ENOEXEC, None, w)
      | Some f \<Rightarrow>
          let rslt_size = sizeof_rsltfrmt H f;
              (res_buf, w') = kmalloc_rslt K rslt_size w
          in (case res_buf of
                None \<Rightarrow> (- ENOMEM, None, w')
              | Some r \<Rightarrow> (int rslt_size, Some (r\<lparr>rslt_out := ERR\<rparr>), w')))"

definition adds :: "('g, 'w) kernel \<Rightarrow> 'g res_buf \<Rightarrow> 'w \<Rightarrow> 'g res_buf \<times> 'w" where
  "adds K res_buf w =
     (let ((r, g), w') = create_gsid K (gsid_out res_buf) w;
          res1 = res_buf\<lparr>gsid_out := g\<rparr>
      in if r \<noteq> 0 then (res1, w') else (res1\<lparr>rslt_out := OK\<rparr>, w'))"

text \<open>
  The allocation of the two arrays of a burst, \<^verbatim>\<open>count*sizeof(u32)\<close> bytes each; \<open>None\<close>
  when one of them is \<^verbatim>\<open>NULL\<close>.
\<close>

definition alloc_burst :: "('g, 'w) kernel \<Rightarrow> u8 \<Rightarrow> 'w \<Rightarrow> pci_burst option \<times> 'w" where
  "alloc_burst K count w =
     (let (a, w1) = kmalloc K (unat count * 4) w;
          (d, w2) = kmalloc K (unat count * 4) w1
      in (case (a, d) of
            (Some am, Some dm) \<Rightarrow> Some \<lparr>count_b = count, addr_shift = am, data_b = dm\<rparr>
          | _ \<Rightarrow> None, w2))"

text \<open>
  The loops \<^verbatim>\<open>for(i=0; i<SPU_WEIGHT; i++)\<close> count in \<^verbatim>\<open>u8\<close>; they are modelled for
  \<^verbatim>\<open>SPU_WEIGHT\<close> up to 255, where the counter reaches the bound. One iteration of the
  loop of format 1, and of format 2:
\<close>

definition set_key_val_w :: "spu_h \<Rightarrow> 'g cmd_buf \<Rightarrow> nat \<Rightarrow> pci_burst \<Rightarrow> pci_burst" where
  "set_key_val_w H cmd_buf i b =
     b\<lparr>addr_shift := (addr_shift b)
          (int i := KEY_REG H + of_nat i, int i + int (SPU_WEIGHT H) := VAL_REG H + of_nat i),
       data_b := (data_b b)
          (int i := key_in cmd_buf i, int i + int (SPU_WEIGHT H) := val_in cmd_buf i)\<rparr>"

definition set_key_w :: "spu_h \<Rightarrow> 'g cmd_buf \<Rightarrow> nat \<Rightarrow> pci_burst \<Rightarrow> pci_burst" where
  "set_key_w H cmd_buf i b =
     b\<lparr>addr_shift := (addr_shift b)(int i := KEY_REG H + of_nat i),
       data_b := (data_b b)(int i := key_in cmd_buf i)\<rparr>"

text \<open>The command word at index \<open>idx\<close>.\<close>

definition set_cmd_w :: "spu_h \<Rightarrow> int \<Rightarrow> u32 \<Rightarrow> pci_burst \<Rightarrow> pci_burst" where
  "set_cmd_w H idx x b =
     b\<lparr>addr_shift := (addr_shift b)(idx := CMD_REG H), data_b := (data_b b)(idx := x)\<rparr>"

text \<open>
  \<^verbatim>\<open>init_burst_w\<close>. The result is \<open>Inl e\<close> when the function returns the non-zero \<open>e\<close>
  (the caller does not use the structure then) and \<open>Inr b\<close> when it returns 0 with the
  structure \<open>b\<close>. The source switches on \<open>cmd\<close> twice with the same labels, before and
  after the allocation; both switches take the same label, so each label is one branch
  here. The identifier checks are the source's, also where they test \<^verbatim>\<open>str_b\<close> after
  resolving \<^verbatim>\<open>gsid_r\<close>; in format 5 \<^verbatim>\<open>str_b\<close> has not been assigned when it is read.
\<close>

definition init_burst_w ::
  "spu_h \<Rightarrow> ('g, 'w) kernel \<Rightarrow> u8 \<Rightarrow> 'g cmd_buf \<Rightarrow> 'w
     \<Rightarrow> undefined_behaviour + ((int + pci_burst) \<times> 'w)" where
  "init_burst_w H K cmd cmd_buf w =
     (case CASE_CMDFRMT H cmd of
        Some CMDFRMT_1 \<Rightarrow>
          let (str, w1) = resolve_gsid K (gsid_in cmd_buf) cmd w in
          if str \<le> 0 then Inr (Inl (- ENOKEY), w1)
          else
            let count = (of_nat (SPU_WEIGHT H * 2 + 1) :: u8) in
            (case alloc_burst K count w1 of
               (None, w2) \<Rightarrow> Inr (Inl (- ENOMEM), w2)
             | (Some b, w2) \<Rightarrow>
                 Inr (Inr (set_cmd_w H (int (unat count) - 1)
                             (CMD_SHIFT H (cmd_in cmd_buf) OR word_of_int str)
                             (fold (set_key_val_w H cmd_buf) [0..<SPU_WEIGHT H] b)), w2))
      | Some CMDFRMT_2 \<Rightarrow>
          let (str, w1) = resolve_gsid K (gsid_in cmd_buf) cmd w in
          if str \<le> 0 then Inr (Inl (- ENOKEY), w1)
          else
            let count = (of_nat (SPU_WEIGHT H + 1) :: u8) in
            (case alloc_burst K count w1 of
               (None, w2) \<Rightarrow> Inr (Inl (- ENOMEM), w2)
             | (Some b, w2) \<Rightarrow>
                 Inr (Inr (set_cmd_w H (int (unat count) - 1)
                             (CMD_SHIFT H (cmd_in cmd_buf) OR word_of_int str)
                             (fold (set_key_w H cmd_buf) [0..<SPU_WEIGHT H] b)), w2))
      | Some CMDFRMT_3 \<Rightarrow>
          let (str, w1) = resolve_gsid K (gsid_in cmd_buf) cmd w in
          if str \<le> 0 then Inr (Inl (- ENOKEY), w1)
          else
            let count = (1 :: u8) in
            (case alloc_burst K count w1 of
               (None, w2) \<Rightarrow> Inr (Inl (- ENOMEM), w2)
             | (Some b, w2) \<Rightarrow>
                 Inr (Inr (set_cmd_w H 0 (CMD_SHIFT H (cmd_in cmd_buf) OR word_of_int str) b), w2))
      | Some CMDFRMT_4 \<Rightarrow>
          let (str_a, w1) = resolve_gsid K (gsid_a cmd_buf) cmd w in
          if str_a \<le> 0 then Inr (Inl (- ENOKEY), w1)
          else
            let (str_b, w2) = resolve_gsid K (gsid_b cmd_buf) cmd w1 in
            if str_b \<le> 0 then Inr (Inl (- ENOKEY), w2)
            else
              let (str_r, w3) = resolve_gsid K (gsid_r cmd_buf) cmd w2 in
              if str_b \<le> 0 then Inr (Inl (- ENOKEY), w3)
              else
                let count = (1 :: u8) in
                (case alloc_burst K count w3 of
                   (None, w4) \<Rightarrow> Inr (Inl (- ENOMEM), w4)
                 | (Some b, w4) \<Rightarrow>
                     Inr (Inr (set_cmd_w H 0
                                 (CMD_SHIFT H (cmd_in cmd_buf) OR STR_A_SHIFT H str_a
                                    OR STR_B_SHIFT H str_b OR STR_R_SHIFT H str_r) b), w4))
      | Some CMDFRMT_5 \<Rightarrow>
          let (str_a, w1) = resolve_gsid K (gsid_a cmd_buf) cmd w in
          if str_a \<le> 0 then Inr (Inl (- ENOKEY), w1)
          else
            let (str_r, w2) = resolve_gsid K (gsid_r cmd_buf) cmd w1 in
            Inl UninitialisedRead
      | None \<Rightarrow> Inr (Inl (- ENOEXEC), w))"

text \<open>\<^verbatim>\<open>init_burst_r\<close>, with the same conventions.\<close>

definition set_key_val_r :: "spu_h \<Rightarrow> nat \<Rightarrow> pci_burst \<Rightarrow> pci_burst" where
  "set_key_val_r H i b =
     b\<lparr>addr_shift := (addr_shift b)
          (int i := KEY_REG H + of_nat i, int i + int (SPU_WEIGHT H) := VAL_REG H + of_nat i)\<rparr>"

definition init_burst_r ::
  "spu_h \<Rightarrow> ('g, 'w) kernel \<Rightarrow> u8 \<Rightarrow> 'w \<Rightarrow> (int + pci_burst) \<times> 'w" where
  "init_burst_r H K cmd w =
     (case CASE_RSLTFRMT H cmd of
        Some RSLTFRMT_1 \<Rightarrow>
          let count = (1 :: u8) in
          (case alloc_burst K count w of
             (None, w1) \<Rightarrow> (Inl (- ENOMEM), w1)
           | (Some b, w1) \<Rightarrow> (Inr (b\<lparr>addr_shift := (addr_shift b)(0 := POWER_REG H)\<rparr>), w1))
      | Some RSLTFRMT_2 \<Rightarrow>
          let count = (of_nat (SPU_WEIGHT H * 2 + 1) :: u8) in
          (case alloc_burst K count w of
             (None, w1) \<Rightarrow> (Inl (- ENOMEM), w1)
           | (Some b, w1) \<Rightarrow>
               let b1 = fold (set_key_val_r H) [0..<SPU_WEIGHT H] b in
               (Inr (b1\<lparr>addr_shift := (addr_shift b1)(int (unat count) - 1 := POWER_REG H)\<rparr>), w1))
      | _ \<Rightarrow> (Inl (- ENOEXEC), w))"

text \<open>
  \<^verbatim>\<open>set_rsltfrmt\<close>. Its local \<^verbatim>\<open>u8 count = 0\<close> is never assigned again, and
  \<^verbatim>\<open>count-1\<close> is computed on \<^verbatim>\<open>int\<close>: the index of the power word is \<open>-1\<close>, the cell
  before the block. The result buffer is written through; without one (\<open>None\<close>) the
  stores of formats 1 and 2 have no object.
\<close>

definition get_key_val :: "spu_h \<Rightarrow> pci_burst \<Rightarrow> nat \<Rightarrow> 'g res_buf \<Rightarrow> 'g res_buf" where
  "get_key_val H pci_burst i r =
     r\<lparr>key_out := (key_out r)(i := data_b pci_burst (int i)),
       val_out := (val_out r)(i := data_b pci_burst (int i + int (SPU_WEIGHT H)))\<rparr>"

definition set_rsltfrmt ::
  "spu_h \<Rightarrow> pci_burst \<Rightarrow> u8 \<Rightarrow> 'g res_buf option \<Rightarrow> undefined_behaviour + 'g res_buf option" where
  "set_rsltfrmt H pci_burst cmd res_buf =
     (let count = (0 :: u8) in
      case CASE_RSLTFRMT H cmd of
        Some RSLTFRMT_1 \<Rightarrow>
          (case res_buf of
             None \<Rightarrow> Inl InvalidPointer
           | Some r \<Rightarrow>
               Inr (Some (r\<lparr>rslt_out := OK,
                             power_out := data_b pci_burst (int (unat count) - 1)\<rparr>)))
      | Some RSLTFRMT_2 \<Rightarrow>
          (case res_buf of
             None \<Rightarrow> Inl InvalidPointer
           | Some r \<Rightarrow>
               let r1 = fold (get_key_val H pci_burst) [0..<SPU_WEIGHT H] (r\<lparr>rslt_out := OK\<rparr>)
               in Inr (Some (r1\<lparr>power_out := data_b pci_burst (int (unat count) - 1)\<rparr>)))
      | _ \<Rightarrow> Inr res_buf)"

text \<open>
  The polling loop of \<^verbatim>\<open>execute_cmd\<close>: read \<^verbatim>\<open>STATE_REG_0\<close> until the ready bit is set.
  Nothing bounds it, so it is a partial function: \<open>None\<close> when the bit never comes.
  \<open>n\<close> counts the reads made so far.
\<close>

partial_function (option) poll ::
  "spu_h \<Rightarrow> ('g, 'w) kernel \<Rightarrow> nat \<Rightarrow> 'w \<Rightarrow> (nat \<times> 'w) option" where
  "poll H K n w =
     (case pci_single_read K (STATE_REG_0 H) w of
        (v, w') \<Rightarrow>
          if v AND push_bit (SPU_READY_FLAG H) 1 = 0 then poll H K (Suc n) w'
          else Some (Suc n, w'))"

text \<open>
  What a call of \<^verbatim>\<open>execute_cmd\<close> leaves: the returned \<^verbatim>\<open>size_t\<close> (read as signed),
  \<^verbatim>\<open>*res_buf\<close>, the state of the kernel, and the bus operations it issued, in order.
\<close>

datatype bus_op = Burst_write pci_burst | Single_read u32 | Burst_read pci_burst

record ('g, 'w) outcome =
  ret :: int
  res :: "'g res_buf option"
  world :: 'w
  bus :: "bus_op list"

definition execute_cmd ::
  "spu_h \<Rightarrow> ('g, 'w) kernel \<Rightarrow> 'g cmd_buf \<Rightarrow> 'w
     \<Rightarrow> (undefined_behaviour + ('g, 'w) outcome) option" where
  "execute_cmd H K cmd_buf w =
     (let cmd = cmd_in cmd_buf;
          pure_cmd = cmd AND CMD_MASK H;
          (rslt_size, res_buf, w1) = alloc_rslt H K pure_cmd w
      in
      if pure_cmd = ADDS H then
        (case res_buf of
           None \<Rightarrow> Some (Inl InvalidPointer)
         | Some r \<Rightarrow>
             let (r', w2) = adds K r w1
             in Some (Inr \<lparr>ret = rslt_size, res = Some r', world = w2, bus = []\<rparr>))
      else
        (case init_burst_w H K pure_cmd cmd_buf w1 of
           Inl u \<Rightarrow> Some (Inl u)
         | Inr (Inl e, w2) \<Rightarrow>
             Some (Inr \<lparr>ret = - ENOMEM, res = res_buf, world = w2, bus = []\<rparr>)
         | Inr (Inr pci_burst_w, w2) \<Rightarrow>
             (case init_burst_r H K pure_cmd w2 of
                (Inl e, w3) \<Rightarrow>
                  Some (Inr \<lparr>ret = - ENOMEM, res = res_buf, world = w3, bus = []\<rparr>)
              | (Inr pci_burst_r, w3) \<Rightarrow>
                  let w4 = pci_burst_write K pci_burst_w w3 in
                  (case poll H K 0 w4 of
                     None \<Rightarrow> None
                   | Some (n, w5) \<Rightarrow>
                       let (pci_burst_r', w6) = pci_burst_read K pci_burst_r w5 in
                       (case set_rsltfrmt H pci_burst_r' pure_cmd res_buf of
                          Inl u \<Rightarrow> Some (Inl u)
                        | Inr res_buf' \<Rightarrow>
                            Some (Inr \<lparr>ret = rslt_size, res = res_buf', world = w6,
                                        bus = Burst_write pci_burst_w
                                              # replicate n (Single_read (STATE_REG_0 H))
                                              @ [Burst_read pci_burst_r']\<rparr>))))))"

section \<open>The words of the spec about compiled keys\<close>

text \<open>
  The "total declared schema width" is the sum of the field lengths. A key has "every
  bit above the width \<open>c\<close> zero" when each of its words, shifted right by the part of
  \<open>c\<close> that lies above the words before it, is zero: bit \<open>j\<close> of word \<open>i\<close> is the bit
  \<open>32 * i + j\<close> of the key. \<open>or_prior\<close> is the bitwise OR, word by word, of the prior
  contents of the output array and a key.
\<close>

definition total_width :: "'n FiledsLengthVector \<Rightarrow> nat" where
  "total_width fields_len_vec = sum_list (map (\<lambda>f. unat (length_len f)) fields_len_vec)"

definition clear_above :: "nat \<Rightarrow> u32 list \<Rightarrow> bool" where
  "clear_above c key = (\<forall>i < length key. drop_bit (c - 32 * i) (key ! i) = 0)"

definition or_prior :: "u32 list \<Rightarrow> u32 list \<Rightarrow> u32 list" where
  "or_prior key0 key = map2 (OR) key0 key"

definition or_prior_state ::
  "u32 list \<Rightarrow> u32 list \<times> u32 \<times> u8 \<Rightarrow> u32 list \<times> u32 \<times> u8" where
  "or_prior_state key0 st =
     (case st of (key, shift, weight) \<Rightarrow> (or_prior key0 key, shift, weight))"

section \<open>The sequential reading of the vectorised insert\<close>

text \<open>
  The spec's words for the vectorised insert, "sequential single inserts": the single
  insert of one entry, the object after the single inserts of a list of entries, one
  after the other, and the status that the \<open>i\<close>-th entry's insert returns after those
  of the entries before it.
\<close>

definition insert_one ::
  "spu_h \<Rightarrow> ('g, 'k, 'v, 'd) Fileops \<Rightarrow> u8 \<Rightarrow> ('g, 'd) BaseStructure \<Rightarrow> ('k, 'v) InsertStruct
     \<Rightarrow> status_t \<times> ('g, 'd) BaseStructure" where
  "insert_one H F flags this ex = BaseStructure_insert H F (key_is ex) (value_is ex) flags this"

definition inserted ::
  "spu_h \<Rightarrow> ('g, 'k, 'v, 'd) Fileops \<Rightarrow> u8 \<Rightarrow> ('g, 'd) BaseStructure
     \<Rightarrow> ('k, 'v) InsertStruct list \<Rightarrow> ('g, 'd) BaseStructure" where
  "inserted H F flags this xs = foldl (\<lambda>s ex. snd (insert_one H F flags s ex)) this xs"

definition status_at ::
  "spu_h \<Rightarrow> ('g, 'k, 'v, 'd) Fileops \<Rightarrow> u8 \<Rightarrow> ('g, 'd) BaseStructure
     \<Rightarrow> ('k, 'v) InsertStruct list \<Rightarrow> nat \<Rightarrow> status_t" where
  "status_at H F flags this xs i =
     fst (insert_one H F flags (inserted H F flags this (take i xs)) (xs ! i))"

section \<open>Concrete instances\<close>

text \<open>
  The schema \<open>[{A,20},{B,20}]\<close> of the spec's example, and values whose bits tell the
  nibbles apart.
\<close>

definition schema_AB :: "string FiledsLengthVector" where
  "schema_AB = [\<lparr>name_len = ''A'', length_len = 20\<rparr>, \<lparr>name_len = ''B'', length_len = 20\<rparr>]"

definition values_AB :: "string FieldsDataVector" where
  "values_AB = [\<lparr>name_data = ''A'', data_data = 0x12345\<rparr>,
                \<lparr>name_data = ''B'', data_data = 0xABCDE\<rparr>]"

text \<open>
  A store of the simulator with one structure, identifier 1, that holds the single pair
  \<open>(5, 50)\<close>: built by the constructor and one insert, from the empty store.
\<close>

definition empty_store :: "(nat, nat, nat) sim_store" where
  "empty_store = \<lparr>globalStructures = fmempty, maps = (\<lambda>p. fmempty), next_map = 0\<rparr>"

definition sim_one :: "nat Simulator" where
  "sim_one = fst (Simulator_ctor 1 empty_store)"

definition store_one :: "(nat, nat, nat) sim_store" where
  "store_one = snd (Simulator_insert sim_one 5 50 0 (snd (Simulator_ctor 1 empty_store)))"

text \<open>
  A device for the facade: its state counts the pairs it holds, ADDS hands out the
  identifier 1, an insert of a key below 100 succeeds and any other fails, and every
  result reports the count.
\<close>

definition counting_Fileops :: "(nat, nat, nat, nat) Fileops" where
  "counting_Fileops =
     \<lparr>execute_adds = (\<lambda>c d. (\<lparr>rslt_rs = OK, gsid_rs = 1\<rparr>, d)),
      execute_dels = (\<lambda>c d.
        case c of
          Ins_cmd_t x g k v \<Rightarrow>
            if k < 100 then (\<lparr>rslt_rs = OK, power_rs = of_nat (Suc d)\<rparr>, Suc d)
            else (\<lparr>rslt_rs = ERR, power_rs = of_nat d\<rparr>, d)
        | _ \<Rightarrow> (\<lparr>rslt_rs = OK, power_rs = of_nat d\<rparr>, d)),
      execute_srch = (\<lambda>c d. (\<lparr>rslt_rs = ERR, power_rs = of_nat d, key_rs = 0, val_rs = 0\<rparr>, d))\<rparr>"

text \<open>
  An instance of the constants of \<^verbatim>\<open>spu.h\<close>, for running the model: keys of two words,
  the eleven commands of the facade, a command 12 of format 4 and a command 13 of
  format 5, and the ready flag in bit 0 of the state register.
\<close>

definition spu_h_example :: spu_h where
  "spu_h_example =
     \<lparr>SPU_WEIGHT = 2, CMD_MASK = 0x3F, P_FLAG = 0x40,
      ADDS = 1, DELS = 2, INS = 3, DEL = 4, SRCH = 5, MIN_cmd = 6, MAX_cmd = 7,
      NEXT = 8, PREV = 9, NSM = 10, NGR = 11,
      CASE_CMDFRMT = (\<lambda>c.
        if c = 3 then Some CMDFRMT_1
        else if c \<in> {4, 5, 8, 9, 10, 11} then Some CMDFRMT_2
        else if c \<in> {2, 6, 7} then Some CMDFRMT_3
        else if c = 12 then Some CMDFRMT_4
        else if c = 13 then Some CMDFRMT_5
        else None),
      CASE_RSLTFRMT = (\<lambda>c.
        if c = 1 then Some RSLTFRMT_0
        else if c \<in> {2, 3, 4, 12, 13} then Some RSLTFRMT_1
        else if c \<in> {5, 6, 7, 8, 9, 10, 11} then Some RSLTFRMT_2
        else None),
      sizeof_rsltfrmt = (\<lambda>f. case f of RSLTFRMT_0 \<Rightarrow> 20 | RSLTFRMT_1 \<Rightarrow> 8 | RSLTFRMT_2 \<Rightarrow> 24),
      KEY_REG = 0x10, VAL_REG = 0x20, CMD_REG = 0x30, POWER_REG = 0x40, STATE_REG_0 = 0x50,
      SPU_READY_FLAG = 0,
      CMD_SHIFT = (\<lambda>c. push_bit 24 (ucast c)),
      STR_A_SHIFT = (\<lambda>s. word_of_int s),
      STR_B_SHIFT = (\<lambda>s. push_bit 8 (word_of_int s)),
      STR_R_SHIFT = (\<lambda>s. push_bit 16 (word_of_int s))\<rparr>"

definition fresh_BaseStructure :: "(nat, nat) BaseStructure" where
  "fresh_BaseStructure = \<lparr>gsid_bs = 1, fops_bs = 0, power_bs = 0\<rparr>"

definition entry :: "nat \<Rightarrow> nat \<Rightarrow> (nat, nat) InsertStruct" where
  "entry k v = \<lparr>key_is = k, value_is = v\<rparr>"

text \<open>
  A kernel for running the driver. Its state is the number of polls the device stays
  busy for. The identifier \<open>g\<close> resolves to the structure number \<open>g\<close>, so 0 does not
  resolve. Fresh memory holds the pattern \<open>0xAAAAAAAA\<close> in every cell, inside a block
  and around it. The POWER register reads 7, the state register reads ready once the
  device is no longer busy, and a burst read stores the registers of the addresses
  \<open>addr_shift[0..count-1]\<close> into \<open>data[0..count-1]\<close>.
\<close>

definition example_regs :: "u32 \<Rightarrow> u32" where
  "example_regs a = (if a = 0x40 then 7 else if a = 0x50 then 1 else a + 0x1000)"

definition example_kernel :: "(nat, nat) kernel" where
  "example_kernel =
     \<lparr>kmalloc = (\<lambda>n w. (Some (\<lambda>i. 0xAAAAAAAA), w)),
      kmalloc_rslt = (\<lambda>n w. (Some \<lparr>rslt_out = OK, gsid_out = 0, key_out = (\<lambda>i. 0),
                                      val_out = (\<lambda>i. 0), power_out = 0\<rparr>, w)),
      create_gsid = (\<lambda>g w. ((0, 1), w)),
      resolve_gsid = (\<lambda>g c w. (int g, w)),
      pci_burst_write = (\<lambda>b w. w),
      pci_single_read = (\<lambda>a w. (if w = 0 then example_regs a else 0, w - 1)),
      pci_burst_read = (\<lambda>b w.
        (b\<lparr>data_b := (\<lambda>i. if 0 \<le> i \<and> i < int (unat (count_b b))
                              then example_regs (addr_shift b i) else data_b b i)\<rparr>, w))\<rparr>"

text \<open>
  Two command buffers: DELS with the P flag on the structure 1, and the command 12 of
  format 4 on the structures 1 and 2 with the result identifier 0, which does not
  resolve.
\<close>

definition dels_buf :: "nat cmd_buf" where
  "dels_buf = \<lparr>cmd_in = 0x42, gsid_in = 1, key_in = (\<lambda>i. 0), val_in = (\<lambda>i. 0),
               gsid_a = 0, gsid_b = 0, gsid_r = 0\<rparr>"

definition format4_buf :: "nat cmd_buf" where
  "format4_buf = \<lparr>cmd_in = 12, gsid_in = 0, key_in = (\<lambda>i. 0), val_in = (\<lambda>i. 0),
                  gsid_a = 1, gsid_b = 2, gsid_r = 0\<rparr>"

text \<open>
  What an outcome shows: the power field of the result together with the last word
  \<open>data[count-1]\<close> of the burst that was read; and the (address, value) pairs of the
  write bursts that were issued.
\<close>

definition read_power :: "('g, 'w) outcome \<Rightarrow> u32 option \<times> u32 option" where
  "read_power out =
     (map_option power_out (res out),
      case last (bus out) of
        Burst_read b \<Rightarrow> Some (data_b b (int (unat (count_b b)) - 1))
      | _ \<Rightarrow> None)"

definition writes :: "('g, 'w) outcome \<Rightarrow> (u32 \<times> u32) list" where
  "writes out =
     concat (map (\<lambda>op. case op of
                    Burst_write b \<Rightarrow>
                      map (\<lambda>i. (addr_shift b (int i), data_b b (int i))) [0..<unat (count_b b)]
                  | _ \<Rightarrow> []) (bus out))"

text \<open>A result buffer as \<^verbatim>\<open>alloc_rslt\<close> leaves it, and a burst of one word.\<close>

definition example_res :: "nat res_buf" where
  "example_res =
     \<lparr>rslt_out = ERR, gsid_out = 0, key_out = (\<lambda>i. 0), val_out = (\<lambda>i. 0), power_out = 0\<rparr>"

definition example_burst :: pci_burst where
  "example_burst = \<lparr>count_b = 1, addr_shift = (\<lambda>i. 0x40), data_b = (\<lambda>i. 0)\<rparr>"

section \<open>The key compiler\<close>

lemma mask_loop_eq: "mask_loop n 0 = mask n"
  by (induction n) (simp_all add: mask_Suc_exp or.commute)

lemma then_ub_Inr: "then_ub r f = Inr y \<Longrightarrow> \<exists>x. r = Inr x \<and> f x = Inr y"
  by (cases r) (simp_all add: then_ub_def)

lemma drop_bit_mono0: "drop_bit n (x::u32) = 0 \<Longrightarrow> n \<le> m \<Longrightarrow> drop_bit m x = 0"
proof -
  assume a: "drop_bit n x = 0" and le: "n \<le> m"
  have "drop_bit m x = drop_bit (m - n) (drop_bit n x)"
    using le by (simp add: drop_bit_drop_bit)
  with a show ?thesis by simp
qed

lemma drop_bit_field: "drop_bit (s + l) (push_bit s (x AND mask l) :: u32) = 0"
  by (rule bit_word_eqI) (auto simp add: bit_simps)

lemma drop_bit_and_mask: "drop_bit n (x AND mask n :: u32) = 0"
  by (rule bit_word_eqI) (auto simp add: bit_simps)

text \<open>The two ways an iteration of the loop ends without undefined behaviour.\<close>

lemma compile_field_cases:
  assumes "compile_field W fdv (key, s, w) fl = Inr (key', s', w')"
  obtains (stay) field key1 where
      "unat (length_len fl) \<le> 32" "unat s < 32" "unat w < length key"
      "field = find_data_by_name fdv (name_len fl) AND mask (unat (length_len fl))"
      "key1 = key[unat w := key ! unat w OR push_bit (unat s) field]"
      "\<not> (32 \<le> unat (s + length_len fl) \<and> int (unat w) < int W - 1)"
      "key' = key1" "s' = s + length_len fl" "w' = w"
  | (carry) field key1 where
      "unat (length_len fl) \<le> 32" "unat s < 32" "unat w < length key"
      "field = find_data_by_name fdv (name_len fl) AND mask (unat (length_len fl))"
      "key1 = key[unat w := key ! unat w OR push_bit (unat s) field]"
      "32 \<le> unat (s + length_len fl)" "int (unat w) < int W - 1"
      "unat (length_len fl - s) < 32" "unat (s + length_len fl - 32) \<le> 32"
      "unat (w + 1) < length key"
      "key' = key1[unat (w + 1) := key1 ! unat (w + 1)
                OR (drop_bit (unat (length_len fl - s)) field
                    AND mask (unat (s + length_len fl - 32)))]"
      "s' = s + length_len fl - 32" "w' = w + 1"
proof (cases "32 \<le> unat (s + length_len fl) \<and> int (unat w) < int W - 1")
  case False
  with assms show ?thesis
    by (intro stay [OF _ _ _ refl refl])
       (auto simp add: compile_field_def then_ub_def Let_def mask_key_def shl_u32_def
          or_into_def mask_loop_eq split: if_splits)
next
  case True
  with assms show ?thesis
    by (intro carry [OF _ _ _ refl refl])
       (auto simp add: compile_field_def then_ub_def Let_def mask_key_def shl_u32_def shr_u32_def
          or_into_def mask_loop_eq split: if_splits)
qed

text \<open>
  ORing into a word bits that lie below a width keeps the key clear above that width.
  The invariant of the loop: with \<open>n\<close> carries made so far (the word index \<open>weight\<close> is
  at most \<open>n\<close>), the key is clear above \<open>32 * n + shift\<close>, the width of the fields
  compiled so far.
\<close>

lemma clear_above_or:
  assumes inv: "clear_above c key" and le: "c \<le> c'" and x: "drop_bit (c' - 32 * i) x = 0"
  shows "clear_above c' (key[i := key ! i OR x])"
  unfolding clear_above_def
proof (intro allI impI)
  fix j assume "j < length (key[i := key ! i OR x])"
  then have j: "j < length key" by simp
  with inv have "drop_bit (c - 32 * j) (key ! j) = 0" by (simp add: clear_above_def)
  then have old: "drop_bit (c' - 32 * j) (key ! j) = 0"
    by (rule drop_bit_mono0) (use le in simp)
  show "drop_bit (c' - 32 * j) (key[i := key ! i OR x] ! j) = 0"
  proof (cases "j = i")
    case True
    with j old x show ?thesis by simp
  next
    case False
    with old show ?thesis by simp
  qed
qed

lemma unat_Suc_le: "unat (w + 1 :: u8) \<le> Suc (unat w)"
  by (simp add: unat_plus_if') arith

lemma compile_field_step:
  assumes step: "compile_field W fdv (key, s, w) fl = Inr (key', s', w')"
    and inv: "clear_above (32 * n + unat s) key" and w: "unat w \<le> n"
  shows "\<exists>n'. unat w' \<le> n'
              \<and> 32 * n' + unat s' = 32 * n + unat s + unat (length_len fl)
              \<and> clear_above (32 * n' + unat s') key'"
  using step
proof (cases rule: compile_field_cases)
  case (stay field key1)
  let ?c' = "32 * n + unat s + unat (length_len fl)"
  have sum: "unat (s + length_len fl) = unat s + unat (length_len fl)"
    using stay(1,2) by (simp add: unat_add_lem [THEN iffD1])
  have "drop_bit (unat s + unat (length_len fl)) (push_bit (unat s) field) = 0"
    unfolding stay(4) by (rule drop_bit_field)
  then have "drop_bit (?c' - 32 * unat w) (push_bit (unat s) field) = 0"
    by (rule drop_bit_mono0) (use w in simp)
  then have "clear_above ?c' key1"
    unfolding stay(5) by (rule clear_above_or [OF inv, rotated]) simp
  then have "clear_above (32 * n + unat s') key'"
    using stay(7,8) sum by (simp add: add.assoc)
  moreover have "32 * n + unat s' = ?c'" using stay(8) sum by simp
  moreover have "unat w' \<le> n" using stay(9) w by simp
  ultimately show ?thesis by blast
next
  case (carry field key1)
  let ?c' = "32 * n + unat s + unat (length_len fl)"
  have sum: "unat (s + length_len fl) = unat s + unat (length_len fl)"
    using carry(1,2) by (simp add: unat_add_lem [THEN iffD1])
  have "32 \<le> s + length_len fl"
    using carry(6) by (simp add: word_le_nat_alt)
  then have diff: "unat (s + length_len fl - 32) = unat s + unat (length_len fl) - 32"
    using sum by (simp add: unat_sub)
  have ge: "32 \<le> unat s + unat (length_len fl)" using carry(6) sum by simp
  have pos: "32 * Suc n + unat s' = ?c'" using carry(12) diff ge by simp
  have w': "unat w' \<le> Suc n" using carry(13) w unat_Suc_le [of w] by simp
  have "drop_bit (unat s + unat (length_len fl)) (push_bit (unat s) field) = 0"
    unfolding carry(4) by (rule drop_bit_field)
  then have "drop_bit (?c' - 32 * unat w) (push_bit (unat s) field) = 0"
    by (rule drop_bit_mono0) (use w in simp)
  then have first: "clear_above ?c' key1"
    unfolding carry(5) by (rule clear_above_or [OF inv, rotated]) simp
  let ?x = "drop_bit (unat (length_len fl - s)) field AND mask (unat (s + length_len fl - 32))"
  have "drop_bit (unat (s + length_len fl - 32)) ?x = 0" by (rule drop_bit_and_mask)
  then have "drop_bit (?c' - 32 * unat (w + 1)) ?x = 0"
    by (rule drop_bit_mono0) (use w' carry(13) pos carry(12) in simp)
  then have "clear_above ?c' key'"
    unfolding carry(11) by (rule clear_above_or [OF first, rotated]) simp
  then have "clear_above (32 * Suc n + unat s') key'" by (simp only: pos)
  with pos w' show ?thesis by blast
qed

lemma compile_loop_clear:
  assumes "compile_loop W fdv schema (key, s, w) = Inr (key', s', w')"
    and "clear_above (32 * n + unat s) key" and "unat w \<le> n"
  shows "clear_above (32 * n + unat s + total_width schema) key'"
  using assms
proof (induction schema arbitrary: key s w n)
  case Nil
  then show ?case by (simp add: total_width_def)
next
  case (Cons fl schema)
  from Cons.prems(1) obtain k1 s1 w1 where
    first: "compile_field W fdv (key, s, w) fl = Inr (k1, s1, w1)"
    and rest: "compile_loop W fdv schema (k1, s1, w1) = Inr (key', s', w')"
    by (auto dest!: then_ub_Inr)
  from compile_field_step [OF first Cons.prems(2,3)] obtain n1 where
    w1: "unat w1 \<le> n1"
    and c1: "32 * n1 + unat s1 = 32 * n + unat s + unat (length_len fl)"
    and i1: "clear_above (32 * n1 + unat s1) k1" by blast
  have "32 * n1 + unat s1 + total_width schema = 32 * n + unat s + total_width (fl # schema)"
    using c1 by (simp add: total_width_def)
  with Cons.IH [OF rest i1 w1] show ?case by simp
qed

text \<open>The loop commutes with the OR of prior contents into the array.\<close>

lemma or_prior_zero: "length key0 = W \<Longrightarrow> or_prior key0 (replicate W 0) = key0"
  by (rule nth_equalityI) (simp_all add: or_prior_def)

lemma or_into_or_prior:
  assumes "length key0 = length kz"
  shows "or_into (or_prior key0 kz) w x = map_sum id (or_prior key0) (or_into kz w x)"
proof (cases "unat w < length kz")
  case True
  have "(or_prior key0 kz)[unat w := or_prior key0 kz ! unat w OR x]
        = or_prior key0 (kz[unat w := kz ! unat w OR x])"
    using assms True by (intro nth_equalityI) (auto simp add: or_prior_def nth_list_update or.assoc)
  with True assms show ?thesis by (simp add: or_into_def or_prior_def)
next
  case False
  with assms show ?thesis by (simp add: or_into_def or_prior_def)
qed

lemma or_into_length: "or_into key w x = Inr key' \<Longrightarrow> length key' = length key"
  by (auto simp add: or_into_def split: if_splits)

lemma compile_field_or_prior:
  assumes len: "length key0 = length kz"
  shows "compile_field W fdv (or_prior key0 kz, s, w) fl
         = map_sum id (or_prior_state key0) (compile_field W fdv (kz, s, w) fl)"
proof (cases "mask_key (length_len fl)")
  case (Inl e)
  then show ?thesis by (simp add: compile_field_def then_ub_def)
next
  case (Inr field_mask)
  note m = this
  let ?field = "find_data_by_name fdv (name_len fl) AND field_mask"
  show ?thesis
  proof (cases "shl_u32 ?field s")
    case (Inl e)
    with m show ?thesis by (simp add: compile_field_def then_ub_def)
  next
    case (Inr shifted)
    note sh = this
    show ?thesis
    proof (cases "or_into kz w shifted")
      case (Inl e)
      with m sh len show ?thesis
        by (simp add: compile_field_def then_ub_def or_into_or_prior)
    next
      case (Inr key1)
      with len have "length key0 = length key1" by (simp add: or_into_length)
      with m sh Inr len show ?thesis
        by (simp add: compile_field_def then_ub_def Let_def or_into_or_prior or_prior_state_def
            split: sum.splits)
    qed
  qed
qed

lemma compile_field_length:
  "compile_field W fdv (key, s, w) fl = Inr (key', s', w') \<Longrightarrow> length key' = length key"
  by (cases rule: compile_field_cases) auto

lemma compile_loop_length:
  "compile_loop W fdv schema (key, s, w) = Inr (key', s', w') \<Longrightarrow> length key' = length key"
proof (induction schema arbitrary: key s w)
  case Nil
  then show ?case by simp
next
  case (Cons fl schema)
  from Cons.prems obtain k1 s1 w1 where
    first: "compile_field W fdv (key, s, w) fl = Inr (k1, s1, w1)"
    and rest: "compile_loop W fdv schema (k1, s1, w1) = Inr (key', s', w')"
    by (auto dest!: then_ub_Inr)
  from Cons.IH [OF rest] compile_field_length [OF first] show ?case by simp
qed

lemma compile_loop_or_prior:
  assumes "length key0 = length kz"
  shows "compile_loop W fdv schema (or_prior key0 kz, s, w)
         = map_sum id (or_prior_state key0) (compile_loop W fdv schema (kz, s, w))"
  using assms
proof (induction schema arbitrary: kz s w)
  case Nil
  then show ?case by (simp add: or_prior_state_def)
next
  case (Cons fl schema)
  show ?case
  proof (cases "compile_field W fdv (kz, s, w) fl")
    case (Inl e)
    with Cons.prems show ?thesis by (simp add: compile_field_or_prior then_ub_def)
  next
    case (Inr st)
    obtain k1 s1 w1 where st: "st = (k1, s1, w1)" by (cases st)
    with Inr Cons.prems have "length key0 = length k1" by (simp add: compile_field_length)
    from Cons.IH [OF this] Inr st Cons.prems show ?thesis
      by (simp add: compile_field_or_prior then_ub_def or_prior_state_def)
  qed
qed

text \<open>
  On the schema of two fields of 20 bits and keys of two words, for all values and all
  prior contents: word 0 receives A in the bits 0 to 19 and the low 12 bits of B in the
  bits 20 to 31; word 1 receives the low 8 bits of B.
\<close>

lemma compileKey_AB:
  "compileKey 2 [\<lparr>name_len = A, length_len = 20\<rparr>, \<lparr>name_len = B, length_len = 20\<rparr>] [k0, k1] vals
   = Inr (True, [k0 OR (find_data_by_name vals A AND mask 20)
                    OR push_bit 20 (find_data_by_name vals B AND mask 20),
                 k1 OR (find_data_by_name vals B AND mask 8)])"
  apply (simp add: compileKey_def compile_field_def then_ub_def mask_key_def mask_loop_eq
      shl_u32_def shr_u32_def or_into_def Let_def)
  apply (intro conjI; rule bit_word_eqI)
   apply (auto simp add: bit_simps)
  done

text \<open>
  Claim C2, on the values \<open>A = 0x12345\<close> and \<open>B = 0xABCDE\<close> and a zero array. Word 0
  is as the claim has it. Word 1 is \<open>0xDE\<close>, the bits 0 to 7 of B, where the claim has
  the bits 12 to 19 of B, \<open>0xAB\<close>: after the carry the source shifts the field right by
  \<^verbatim>\<open>length - prev_shift\<close>, which is 0 here, and not by the 12 bits that word 0 took.
\<close>

theorem compileKey_AB_second_word: "compileKey 2 schema_AB [0, 0] values_AB = Inr (True, [0xCDE12345, 0xDE])
   \<and> drop_bit 12 (0xABCDE AND mask 20 :: u32) = 0xAB"
  by (simp add: schema_AB_def values_AB_def compileKey_def compile_field_def then_ub_def
      mask_key_def mask_loop_eq shl_u32_def shr_u32_def or_into_def mask_eq_exp_minus_1)

text \<open>
  Claim C3, as stated: the compiled key does not depend on the prior contents of the
  output array, and every bit above the total width is zero. On the schema of width 40
  an array that holds the bit 8 of word 1 (bit 40 of the key) keeps it: the result
  differs from that on the zero array, and has a bit above the width.
\<close>

theorem compileKey_prior_contents_counterexample:
  "compileKey 2 schema_AB [0, 0x100] values_AB = Inr (True, [0xCDE12345, 0x1DE])
   \<and> compileKey 2 schema_AB [0, 0] values_AB \<noteq> compileKey 2 schema_AB [0, 0x100] values_AB
   \<and> total_width schema_AB = 40
   \<and> \<not> clear_above 40 [0xCDE12345, 0x1DE]"
proof -
  have a: "compileKey 2 schema_AB [0, 0x100] values_AB = Inr (True, [0xCDE12345, 0x1DE])"
    by (simp add: schema_AB_def values_AB_def compileKey_def compile_field_def then_ub_def
      mask_key_def mask_loop_eq shl_u32_def shr_u32_def or_into_def mask_eq_exp_minus_1)
  have b: "compileKey 2 schema_AB [0, 0] values_AB = Inr (True, [0xCDE12345, 0xDE])"
    by (simp add: schema_AB_def values_AB_def compileKey_def compile_field_def then_ub_def
      mask_key_def mask_loop_eq shl_u32_def shr_u32_def or_into_def mask_eq_exp_minus_1)
  have c: "total_width schema_AB = 40" by (simp add: total_width_def schema_AB_def)
  have "drop_bit (40 - 32 * 1) ([0xCDE12345, 0x1DE :: u32] ! 1) \<noteq> 0" by simp
  then have d: "\<not> clear_above 40 [0xCDE12345, 0x1DE]"
    unfolding clear_above_def by (intro notI) (drule spec [of _ 1], simp)
  from a b c d show ?thesis by simp
qed

text \<open>
  Claim C3, amended. For every schema and every value vector, with an output array of
  \<^verbatim>\<open>SPU_WEIGHT\<close> words: the key words that \<open>compileKey\<close> leaves are the
  prior contents of the array ORed, word by word, with the words it leaves in a zero
  array, which the schema and the values alone determine, and the compilation has
  undefined behaviour on the one array exactly when it has on the other; and the key it
  leaves in a zero array, when the compilation is defined, has \<^verbatim>\<open>SPU_WEIGHT\<close> words and
  every bit above the total declared schema width zero.
\<close>

theorem compileKey_or_prior_clear_above:
  assumes len: "length key0 = W"
  shows "compileKey W schema key0 vals
           = map_sum id (\<lambda>(b, key). (b, or_prior key0 key)) (compileKey W schema (replicate W 0) vals)
         \<and> (\<forall>b key. compileKey W schema (replicate W 0) vals = Inr (b, key) \<longrightarrow>
                length key = W \<and> clear_above (total_width schema) key)"
proof
  have "compile_loop W vals schema (or_prior key0 (replicate W 0), 0, 0)
        = map_sum id (or_prior_state key0) (compile_loop W vals schema (replicate W 0, 0, 0))"
    by (rule compile_loop_or_prior) (simp add: len)
  then show "compileKey W schema key0 vals
           = map_sum id (\<lambda>(b, key). (b, or_prior key0 key)) (compileKey W schema (replicate W 0) vals)"
    using len
    by (cases "compile_loop W vals schema (replicate W 0, 0, 0)")
       (auto simp add: compileKey_def or_prior_zero then_ub_def or_prior_state_def)
next
  show "\<forall>b key. compileKey W schema (replicate W 0) vals = Inr (b, key) \<longrightarrow>
                length key = W \<and> clear_above (total_width schema) key"
  proof (intro allI impI)
    fix b key
    assume "compileKey W schema (replicate W 0) vals = Inr (b, key)"
    then obtain s w where run: "compile_loop W vals schema (replicate W 0, 0, 0) = Inr (key, s, w)"
      by (auto simp add: compileKey_def dest!: then_ub_Inr)
    have "clear_above (32 * 0 + unat (0::u32)) (replicate W 0)"
      by (simp add: clear_above_def)
    from compile_loop_clear [OF run this] compile_loop_length [OF run]
    show "length key = W \<and> clear_above (total_width schema) key" by simp
  qed
qed

theorem compileKey_or_prior_clear_above_witness:
  "length [0, 0x100 :: u32] = 2
   \<and> compileKey 2 schema_AB (replicate 2 0) values_AB = Inr (True, [0xCDE12345, 0xDE])
   \<and> compileKey 2 schema_AB [0, 0x100] values_AB = Inr (True, [0xCDE12345, 0x1DE])
   \<and> clear_above (total_width schema_AB) [0xCDE12345, 0xDE]"
proof -
  have len: "length [0, 0x100 :: u32] = 2" by simp
  have two: "replicate 2 (0::u32) = [0, 0]" by (simp add: numeral_2_eq_2)
  have zero: "compileKey 2 schema_AB (replicate 2 0) values_AB = Inr (True, [0xCDE12345, 0xDE])"
    unfolding two
    by (simp add: schema_AB_def values_AB_def compileKey_def compile_field_def then_ub_def
      mask_key_def mask_loop_eq shl_u32_def shr_u32_def or_into_def mask_eq_exp_minus_1)
  note inst = compileKey_or_prior_clear_above [OF len, of schema_AB values_AB]
  from inst [THEN conjunct1] zero
  have prior: "compileKey 2 schema_AB [0, 0x100] values_AB = Inr (True, [0xCDE12345, 0x1DE])"
    by (simp add: or_prior_def)
  from inst [THEN conjunct2] zero
  have "clear_above (total_width schema_AB) [0xCDE12345, 0xDE]" by blast
  with len zero prior show ?thesis by simp
qed

section \<open>The simulation backend\<close>

text \<open>
  Claim C6. For every key \<open>k\<close> and value \<open>v\<close>, in any store and with any flags: after
  \<open>insert(k, v)\<close>, which returns Ok, \<open>search(k)\<close> returns the pair \<open>{k, v}\<close> with status
  Ok; after \<open>del(k)\<close>, which returns Ok, \<open>search(k)\<close> returns the pair built from the
  status Error alone, which carries no key and no value.
\<close>

theorem Simulator_search_after_insert_del:
  "fst (Simulator_insert this k v fl1 st) = OK
   \<and> Simulator_search this k fl2 (snd (Simulator_insert this k v fl1 st)) = Pair_t k v OK
   \<and> fst (Simulator_del this k fl3 st) = OK
   \<and> Simulator_search this k fl4 (snd (Simulator_del this k fl3 st)) = Pair_t_status ERR"
  by (simp add: Simulator_search_def Simulator_insert_def Simulator_del_def pair_t_kv_def)

text \<open>
  Claim C7, as stated: destroying a structure reports the power it had. It fails on the
  structure of \<open>store_one\<close>, which holds one pair: \<open>get_power\<close> is 1 and
  \<open>deleteStructure\<close> reports 0.
\<close>

theorem deleteStructure_power_counterexample:
  "Simulator_get_power sim_one store_one = 1
   \<and> power_rs (fst (deleteStructure sim_one store_one)) \<noteq> Simulator_get_power sim_one store_one"
  by (simp add: sim_one_def store_one_def empty_store_def Simulator_ctor_def Simulator_insert_def
      Simulator_get_power_def deleteStructure_def fcard_finsert_if fcard_fempty)

text \<open>
  Claim C7, amended. In the simulation backend, destroying a structure removes the
  mapping of its identifier from the global table, leaves every other mapping and every
  map as it was, and returns the status Ok with the power 0, whatever the number of
  elements the structure holds.
\<close>

theorem deleteStructure_removes_and_reports_zero:
  "fst (deleteStructure this st) = \<lparr>rslt_rs = OK, power_rs = 0\<rparr>
   \<and> fmlookup (globalStructures (snd (deleteStructure this st))) (gsid_sim this) = None
   \<and> fmdrop (gsid_sim this) (globalStructures (snd (deleteStructure this st)))
       = fmdrop (gsid_sim this) (globalStructures st)
   \<and> maps (snd (deleteStructure this st)) = maps st"
  by (simp add: deleteStructure_def)

text \<open>
  Claim C10. In the simulation backend, insert returns Ok for every key, value and
  flags; inserting the same pair a second time leaves the store as the first insert
  left it; and inserting a key that is present gives it the new value and leaves the
  power unchanged.
\<close>

theorem Simulator_insert_present_key:
  "fst (Simulator_insert this k v fl st) = OK
   \<and> snd (Simulator_insert this k v fl' (snd (Simulator_insert this k v fl st)))
       = snd (Simulator_insert this k v fl st)
   \<and> (fmlookup (maps st (data_sim this)) k = Some v0 \<longrightarrow>
        fmlookup (maps (snd (Simulator_insert this k v fl st)) (data_sim this)) k = Some v
        \<and> Simulator_get_power this (snd (Simulator_insert this k v fl st))
            = Simulator_get_power this st)"
  by (auto simp add: Simulator_insert_def Simulator_get_power_def finsert_absorb fmdomI)

theorem Simulator_insert_present_key_witness:
  "fmlookup (maps store_one (data_sim sim_one)) 5 = Some 50
   \<and> fmlookup (maps (snd (Simulator_insert sim_one 5 51 0 store_one)) (data_sim sim_one)) 5 = Some 51
   \<and> Simulator_get_power sim_one (snd (Simulator_insert sim_one 5 51 0 store_one)) = 1"
proof -
  have present: "fmlookup (maps store_one (data_sim sim_one)) 5 = Some 50"
    by (simp add: sim_one_def store_one_def empty_store_def Simulator_ctor_def Simulator_insert_def)
  have one: "Simulator_get_power sim_one store_one = 1"
    by (simp add: sim_one_def store_one_def empty_store_def Simulator_ctor_def Simulator_insert_def
        Simulator_get_power_def fcard_finsert_if fcard_fempty)
  from Simulator_insert_present_key [of sim_one 5 51 0 store_one 0 50] present one
  show ?thesis by simp
qed

section \<open>The client facade\<close>

lemma inserted_Cons:
  "inserted H F flags this (x # xs) = inserted H F flags (snd (insert_one H F flags this x)) xs"
  by (simp add: inserted_def)

lemma status_at_0: "status_at H F flags this (x # xs) 0 = fst (insert_one H F flags this x)"
  by (simp add: status_at_def inserted_def)

lemma status_at_Suc:
  "status_at H F flags this (x # xs) (Suc i)
   = status_at H F flags (snd (insert_one H F flags this x)) xs i"
  by (simp add: status_at_def inserted_Cons)

text \<open>While the entries succeed, the loop goes on with the rest of the vector.\<close>

lemma insert_vector_prefix:
  "(\<And>j. j < length ys \<Longrightarrow> status_at H F flags this (ys @ rest) j = OK) \<Longrightarrow>
   BaseStructure_insert_vector H F (ys @ rest) flags this
     = BaseStructure_insert_vector H F rest flags (inserted H F flags this ys)"
proof (induction ys arbitrary: this)
  case Nil
  then show ?case by (simp add: inserted_def)
next
  case (Cons y ys)
  have y_ok: "fst (insert_one H F flags this y) = OK"
    using Cons.prems [of 0] by (simp add: status_at_0)
  have rest_ok: "status_at H F flags (snd (insert_one H F flags this y)) (ys @ rest) j = OK"
    if "j < length ys" for j
    using Cons.prems [of "Suc j"] that by (simp add: status_at_Suc)
  have "BaseStructure_insert_vector H F ((y # ys) @ rest) flags this
        = BaseStructure_insert_vector H F (ys @ rest) flags (snd (insert_one H F flags this y))"
    using y_ok by (simp add: insert_one_def split_beta)
  also have "\<dots> = BaseStructure_insert_vector H F rest flags
                     (inserted H F flags (snd (insert_one H F flags this y)) ys)"
    by (rule Cons.IH) (rule rest_ok)
  finally show ?case by (simp add: inserted_Cons)
qed

text \<open>
  Claim C5. For every vector of entries, the vectorised insert is the sequence of the
  single inserts in the order of the vector: when every one of them returns Ok (so also
  for the empty vector) it returns Ok, and the object is the one after all of them; when
  the \<open>i\<close>-th is the first that does not return Ok, it returns that status, and the
  object is the one after the first \<open>i\<close> inserts and the failed one, none of the later
  entries being tried.
\<close>

theorem BaseStructure_insert_vector_sequential:
  "((\<forall>j < length xs. status_at H F flags this xs j = OK) \<longrightarrow>
      BaseStructure_insert_vector H F xs flags this = (OK, inserted H F flags this xs))
   \<and> (\<forall>i < length xs.
        status_at H F flags this xs i \<noteq> OK \<and> (\<forall>j < i. status_at H F flags this xs j = OK) \<longrightarrow>
        BaseStructure_insert_vector H F xs flags this
          = (status_at H F flags this xs i, inserted H F flags this (take (Suc i) xs)))"
proof (intro conjI impI allI)
  assume "\<forall>j < length xs. status_at H F flags this xs j = OK"
  then show "BaseStructure_insert_vector H F xs flags this = (OK, inserted H F flags this xs)"
    using insert_vector_prefix [of xs H F flags this "[]"] by simp
next
  fix i
  assume i: "i < length xs"
    and "status_at H F flags this xs i \<noteq> OK \<and> (\<forall>j < i. status_at H F flags this xs j = OK)"
  then have bad: "status_at H F flags this xs i \<noteq> OK"
    and good: "\<And>j. j < i \<Longrightarrow> status_at H F flags this xs j = OK" by auto
  have split: "xs = take i xs @ (xs ! i) # drop (Suc i) xs"
    using i by (simp add: id_take_nth_drop)
  have prefix_ok: "status_at H F flags this (take i xs @ (xs ! i) # drop (Suc i) xs) j = OK"
    if "j < length (take i xs)" for j
    using good [of j] that split by simp
  have "BaseStructure_insert_vector H F (take i xs @ (xs ! i) # drop (Suc i) xs) flags this
        = BaseStructure_insert_vector H F ((xs ! i) # drop (Suc i) xs) flags
            (inserted H F flags this (take i xs))"
    by (rule insert_vector_prefix) (rule prefix_ok)
  also have "\<dots> = insert_one H F flags (inserted H F flags this (take i xs)) (xs ! i)"
    using bad by (simp add: status_at_def insert_one_def split_beta)
  also have "\<dots> = (status_at H F flags this xs i, inserted H F flags this (take (Suc i) xs))"
    using i by (simp add: status_at_def inserted_def take_Suc_conv_app_nth)
  finally show "BaseStructure_insert_vector H F xs flags this
          = (status_at H F flags this xs i, inserted H F flags this (take (Suc i) xs))"
    using split by simp
qed

theorem BaseStructure_insert_vector_sequential_witness:
  "status_at spu_h_example counting_Fileops 0 fresh_BaseStructure
     [entry 1 10, entry 2 20, entry 100 0, entry 3 30] 0 = OK
   \<and> status_at spu_h_example counting_Fileops 0 fresh_BaseStructure
       [entry 1 10, entry 2 20, entry 100 0, entry 3 30] 1 = OK
   \<and> status_at spu_h_example counting_Fileops 0 fresh_BaseStructure
       [entry 1 10, entry 2 20, entry 100 0, entry 3 30] 2 = ERR
   \<and> BaseStructure_insert_vector spu_h_example counting_Fileops
       [entry 1 10, entry 2 20, entry 100 0, entry 3 30] 0 fresh_BaseStructure
       = (ERR, \<lparr>gsid_bs = 1, fops_bs = 2, power_bs = 2\<rparr>)"
proof -
  let ?xs = "[entry 1 10, entry 2 20, entry 100 0, entry 3 30]"
  have st:
    "status_at spu_h_example counting_Fileops 0 fresh_BaseStructure ?xs 0 = OK"
    "status_at spu_h_example counting_Fileops 0 fresh_BaseStructure ?xs 1 = OK"
    "status_at spu_h_example counting_Fileops 0 fresh_BaseStructure ?xs 2 = ERR"
    by (simp_all add: status_at_def inserted_def insert_one_def BaseStructure_insert_def
        counting_Fileops_def fresh_BaseStructure_def entry_def numeral_2_eq_2)
  have before: "\<forall>j<2. status_at spu_h_example counting_Fileops 0 fresh_BaseStructure ?xs j = OK"
    using st by (simp add: less_Suc_eq numeral_2_eq_2)
  have after: "inserted spu_h_example counting_Fileops 0 fresh_BaseStructure (take (Suc 2) ?xs)
               = \<lparr>gsid_bs = 1, fops_bs = 2, power_bs = 2\<rparr>"
    by (simp add: inserted_def insert_one_def BaseStructure_insert_def
        counting_Fileops_def fresh_BaseStructure_def entry_def numeral_2_eq_2)
  from BaseStructure_insert_vector_sequential
         [of ?xs spu_h_example counting_Fileops 0 fresh_BaseStructure,
          THEN conjunct2, rule_format, of 2]
       before st(3) after
  have "BaseStructure_insert_vector spu_h_example counting_Fileops ?xs 0 fresh_BaseStructure
        = (ERR, \<lparr>gsid_bs = 1, fops_bs = 2, power_bs = 2\<rparr>)"
    by simp
  with st show ?thesis by simp
qed

text \<open>
  Claim C8. Construction, when it succeeds, leaves the cached power 0; and after each
  of insert, del, search, min, max, next, prev, nsm, ngr and the destructor, the power
  that \<open>get_power\<close> returns is the power field of the result that the device returned to
  the command of that operation.
\<close>

theorem BaseStructure_power_is_last_result:
  "(BaseStructure_ctor H F dev = Inr this0 \<longrightarrow> BaseStructure_get_power this0 = 0)
   \<and> BaseStructure_get_power (snd (BaseStructure_insert H F k v fl this))
       = power_rs (fst (execute_dels F (Ins_cmd_t (INS H OR fl) (gsid_bs this) k v) (fops_bs this)))
   \<and> BaseStructure_get_power (snd (BaseStructure_del H F k fl this))
       = power_rs (fst (execute_dels F (Del_cmd_t (DEL H OR fl) (gsid_bs this) k) (fops_bs this)))
   \<and> BaseStructure_get_power (snd (BaseStructure_search H F k fl this))
       = power_rs (fst (execute_srch F (Srch_cmd_t (SRCH H OR fl) (gsid_bs this) k) (fops_bs this)))
   \<and> BaseStructure_get_power (snd (BaseStructure_min H F fl this))
       = power_rs (fst (execute_srch F (Min_cmd_t (MIN_cmd H OR fl) (gsid_bs this)) (fops_bs this)))
   \<and> BaseStructure_get_power (snd (BaseStructure_max H F fl this))
       = power_rs (fst (execute_srch F (Max_cmd_t (MAX_cmd H OR fl) (gsid_bs this)) (fops_bs this)))
   \<and> BaseStructure_get_power (snd (BaseStructure_next H F k fl this))
       = power_rs (fst (execute_srch F (Next_cmd_t (NEXT H OR fl) (gsid_bs this) k) (fops_bs this)))
   \<and> BaseStructure_get_power (snd (BaseStructure_prev H F k fl this))
       = power_rs (fst (execute_srch F (Prev_cmd_t (PREV H OR fl) (gsid_bs this) k) (fops_bs this)))
   \<and> BaseStructure_get_power (snd (BaseStructure_nsm H F k fl this))
       = power_rs (fst (execute_srch F (Nsm_cmd_t (NSM H OR fl) (gsid_bs this) k) (fops_bs this)))
   \<and> BaseStructure_get_power (snd (BaseStructure_ngr H F k fl this))
       = power_rs (fst (execute_srch F (Ngr_cmd_t (NGR H OR fl) (gsid_bs this) k) (fops_bs this)))
   \<and> BaseStructure_get_power (BaseStructure_dtor H F this)
       = power_rs (fst (execute_dels F (Dels_cmd_t (DELS H OR P_FLAG H) (gsid_bs this)) (fops_bs this)))"
proof -
  have ctor: "BaseStructure_ctor H F dev = Inr this0 \<longrightarrow> BaseStructure_get_power this0 = 0"
    by (auto simp add: BaseStructure_ctor_def BaseStructure_get_power_def split_beta split: if_splits)
  have ops:
    "BaseStructure_get_power (snd (BaseStructure_insert H F k v fl this))
       = power_rs (fst (execute_dels F (Ins_cmd_t (INS H OR fl) (gsid_bs this) k v) (fops_bs this)))"
    "BaseStructure_get_power (snd (BaseStructure_del H F k fl this))
       = power_rs (fst (execute_dels F (Del_cmd_t (DEL H OR fl) (gsid_bs this) k) (fops_bs this)))"
    "BaseStructure_get_power (BaseStructure_dtor H F this)
       = power_rs (fst (execute_dels F (Dels_cmd_t (DELS H OR P_FLAG H) (gsid_bs this)) (fops_bs this)))"
    by (simp_all add: BaseStructure_get_power_def BaseStructure_insert_def BaseStructure_del_def
        BaseStructure_dtor_def split_beta)
  have queries:
    "BaseStructure_get_power (snd (BaseStructure_search H F k fl this))
       = power_rs (fst (execute_srch F (Srch_cmd_t (SRCH H OR fl) (gsid_bs this) k) (fops_bs this)))"
    "BaseStructure_get_power (snd (BaseStructure_min H F fl this))
       = power_rs (fst (execute_srch F (Min_cmd_t (MIN_cmd H OR fl) (gsid_bs this)) (fops_bs this)))"
    "BaseStructure_get_power (snd (BaseStructure_max H F fl this))
       = power_rs (fst (execute_srch F (Max_cmd_t (MAX_cmd H OR fl) (gsid_bs this)) (fops_bs this)))"
    "BaseStructure_get_power (snd (BaseStructure_next H F k fl this))
       = power_rs (fst (execute_srch F (Next_cmd_t (NEXT H OR fl) (gsid_bs this) k) (fops_bs this)))"
    "BaseStructure_get_power (snd (BaseStructure_prev H F k fl this))
       = power_rs (fst (execute_srch F (Prev_cmd_t (PREV H OR fl) (gsid_bs this) k) (fops_bs this)))"
    "BaseStructure_get_power (snd (BaseStructure_nsm H F k fl this))
       = power_rs (fst (execute_srch F (Nsm_cmd_t (NSM H OR fl) (gsid_bs this) k) (fops_bs this)))"
    "BaseStructure_get_power (snd (BaseStructure_ngr H F k fl this))
       = power_rs (fst (execute_srch F (Ngr_cmd_t (NGR H OR fl) (gsid_bs this) k) (fops_bs this)))"
    by (simp_all add: BaseStructure_get_power_def BaseStructure_search_def BaseStructure_min_def
        BaseStructure_max_def BaseStructure_next_def BaseStructure_prev_def BaseStructure_nsm_def
        BaseStructure_ngr_def split_beta)
  from ctor ops queries show ?thesis by (intro conjI)
qed

theorem BaseStructure_power_is_last_result_witness:
  "BaseStructure_ctor spu_h_example counting_Fileops 0 = Inr fresh_BaseStructure
   \<and> BaseStructure_get_power fresh_BaseStructure = 0"
proof -
  have made: "BaseStructure_ctor spu_h_example counting_Fileops 0 = Inr fresh_BaseStructure"
    by (simp add: BaseStructure_ctor_def counting_Fileops_def fresh_BaseStructure_def)
  have "BaseStructure_ctor spu_h_example counting_Fileops 0 = Inr fresh_BaseStructure
        \<longrightarrow> BaseStructure_get_power fresh_BaseStructure = 0"
    by (rule BaseStructure_power_is_last_result
          [where H = spu_h_example and F = counting_Fileops and dev = 0, THEN conjunct1])
  with made show ?thesis by blast
qed

section \<open>The command executor\<close>

lemma example_kernel_simps:
  "kmalloc example_kernel n w = (Some (\<lambda>i. 0xAAAAAAAA), w)"
  "kmalloc_rslt example_kernel n w =
     (Some \<lparr>rslt_out = OK, gsid_out = 0, key_out = (\<lambda>i. 0), val_out = (\<lambda>i. 0), power_out = 0\<rparr>, w)"
  "create_gsid example_kernel g w = ((0, 1), w)"
  "resolve_gsid example_kernel g c w = (int g, w)"
  "pci_burst_write example_kernel b w = w"
  "pci_single_read example_kernel a w = (if w = 0 then example_regs a else 0, w - 1)"
  "pci_burst_read example_kernel b w =
     (b\<lparr>data_b := (\<lambda>i. if 0 \<le> i \<and> i < int (unat (count_b b))
                           then example_regs (addr_shift b i) else data_b b i)\<rparr>, w)"
  by (simp_all add: example_kernel_def)

lemma spu_h_example_simps:
  "SPU_WEIGHT spu_h_example = 2"
  "CMD_MASK spu_h_example = 0x3F"
  "ADDS spu_h_example = 1"
  "CASE_CMDFRMT spu_h_example 2 = Some CMDFRMT_3"
  "CASE_CMDFRMT spu_h_example 12 = Some CMDFRMT_4"
  "CASE_RSLTFRMT spu_h_example 1 = Some RSLTFRMT_0"
  "CASE_RSLTFRMT spu_h_example 2 = Some RSLTFRMT_1"
  "CASE_RSLTFRMT spu_h_example 12 = Some RSLTFRMT_1"
  "sizeof_rsltfrmt spu_h_example RSLTFRMT_1 = 8"
  "CMD_REG spu_h_example = 0x30"
  "POWER_REG spu_h_example = 0x40"
  "STATE_REG_0 spu_h_example = 0x50"
  "SPU_READY_FLAG spu_h_example = 0"
  "CMD_SHIFT spu_h_example c = push_bit 24 (ucast c)"
  "STR_A_SHIFT spu_h_example x = word_of_int x"
  "STR_B_SHIFT spu_h_example x = push_bit 8 (word_of_int x)"
  "STR_R_SHIFT spu_h_example x = push_bit 16 (word_of_int x)"
  by (simp_all add: spu_h_example_def)

text \<open>A device that is busy for two polls is ready at the third read.\<close>

lemma poll_example: "poll spu_h_example example_kernel 0 2 = Some (3, 0)"
  apply (subst poll.simps)
  apply (subst poll.simps)
  apply (subst poll.simps)
  apply (simp add: example_kernel_simps spu_h_example_simps example_regs_def)
  done

lemma fold_get_key_val_rslt: "rslt_out (fold (get_key_val H b) xs r) = rslt_out r"
  by (induction xs arbitrary: r) (simp_all add: get_key_val_def)

text \<open>
  The decoding of the formats 1 and 2 stores \<^verbatim>\<open>OK\<close>, and as the power the cell before
  the block of the burst.
\<close>

lemma set_rsltfrmt_layout:
  assumes "CASE_RSLTFRMT H cmd = Some RSLTFRMT_1 \<or> CASE_RSLTFRMT H cmd = Some RSLTFRMT_2"
  shows "\<exists>r'. set_rsltfrmt H b cmd (Some r) = Inr (Some r') \<and> rslt_out r' = OK
              \<and> power_out r' = data_b b (- 1)"
  using assms by (auto simp add: set_rsltfrmt_def Let_def fold_get_key_val_rslt)

lemma set_rsltfrmt_no_ERR:
  assumes "set_rsltfrmt H b cmd rb = Inr (Some r')" and "rslt_out r' = ERR"
  shows "rb = Some r'"
  using assms
  by (auto simp add: set_rsltfrmt_def Let_def fold_get_key_val_rslt
      split: option.splits rsltfrmt.splits)

lemma init_burst_r_Inr:
  assumes "init_burst_r H K cmd w = (Inr b, w')"
  shows "CASE_RSLTFRMT H cmd = Some RSLTFRMT_1 \<or> CASE_RSLTFRMT H cmd = Some RSLTFRMT_2"
  using assms
  by (auto simp add: init_burst_r_def Let_def split: option.splits rsltfrmt.splits prod.splits)

text \<open>A call that issued a bus operation went through every step, up to the decoding.\<close>

lemma execute_cmd_completed:
  assumes "execute_cmd H K cmd_buf w = Some (Inr out)" and "bus out \<noteq> []"
  shows "\<exists>r. res out = Some r \<and> rslt_out r = OK"
proof -
  let ?pure = "cmd_in cmd_buf AND CMD_MASK H"
  obtain rslt_size res_buf w1 where alloc: "alloc_rslt H K ?pure w = (rslt_size, res_buf, w1)"
    by (cases "alloc_rslt H K ?pure w") auto
  from assms alloc have not_adds: "?pure \<noteq> ADDS H"
    by (auto simp add: execute_cmd_def Let_def split: option.splits prod.splits)
  from assms alloc not_adds obtain bw w2 where
    bw: "init_burst_w H K ?pure cmd_buf w1 = Inr (Inr bw, w2)"
    by (auto simp add: execute_cmd_def Let_def split: sum.splits prod.splits)
  from assms alloc not_adds bw obtain br w3 where
    br: "init_burst_r H K ?pure w2 = (Inr br, w3)"
    by (auto simp add: execute_cmd_def Let_def split: sum.splits prod.splits)
  from assms alloc not_adds bw br obtain n w5 where
    p: "poll H K 0 (pci_burst_write K bw w3) = Some (n, w5)"
    by (auto simp add: execute_cmd_def Let_def split: option.splits)
  obtain br' w6 where rd: "pci_burst_read K br w5 = (br', w6)"
    by (cases "pci_burst_read K br w5") auto
  from assms alloc not_adds bw br p rd obtain res_buf' where
    dec: "set_rsltfrmt H br' ?pure res_buf = Inr res_buf'" and out: "res out = res_buf'"
    by (auto simp add: execute_cmd_def Let_def split: sum.splits)
  have layout: "CASE_RSLTFRMT H ?pure = Some RSLTFRMT_1 \<or> CASE_RSLTFRMT H ?pure = Some RSLTFRMT_2"
    using br by (rule init_burst_r_Inr)
  from dec layout obtain r where "res_buf = Some r"
    by (cases res_buf) (auto simp add: set_rsltfrmt_def)
  with set_rsltfrmt_layout [OF layout, of br' r] dec out show ?thesis by auto
qed

text \<open>
  Claim C1, on the DELS command of \<open>dels_buf\<close>, whose result has format 1. The call
  completes; the burst that was read holds the POWER register, 7, in its last word
  \<open>data[count-1]\<close>; the power field of the result is \<open>0xAAAAAAAA\<close>, the content of the
  cell before the block, and not that word.
\<close>

theorem execute_cmd_power_not_POWER_REG:
  "map_option (map_sum id read_power) (execute_cmd spu_h_example example_kernel dels_buf 2)
   = Some (Inr (Some 0xAAAAAAAA, Some 7))"
  by (simp add: execute_cmd_def alloc_rslt_def init_burst_w_def init_burst_r_def alloc_burst_def
      poll_example example_kernel_simps spu_h_example_simps dels_buf_def set_rsltfrmt_def
      read_power_def set_cmd_w_def example_regs_def)

text \<open>
  The identifier of the formats 1, 2 and 3 is checked as it is resolved: when it does
  not resolve, the call returns the error before it allocates a burst, and issues no bus
  operation.
\<close>

lemma execute_cmd_unresolved_gsid_no_bus:
  assumes not_adds: "cmd_in cmd_buf AND CMD_MASK H \<noteq> ADDS H"
    and format: "CASE_CMDFRMT H (cmd_in cmd_buf AND CMD_MASK H)
                 \<in> {Some CMDFRMT_1, Some CMDFRMT_2, Some CMDFRMT_3}"
    and alloc: "alloc_rslt H K (cmd_in cmd_buf AND CMD_MASK H) w = (rslt_size, res_buf, w1)"
    and unresolved:
      "fst (resolve_gsid K (gsid_in cmd_buf) (cmd_in cmd_buf AND CMD_MASK H) w1) \<le> 0"
  shows "\<exists>out. execute_cmd H K cmd_buf w = Some (Inr out) \<and> ret out = - ENOMEM \<and> bus out = []"
  using assms by (auto simp add: execute_cmd_def init_burst_w_def split_beta)

text \<open>
  Claim C4, on the command of \<open>format4_buf\<close>, whose result identifier does not resolve:
  \<^verbatim>\<open>resolve_gsid\<close> returns 0 for it, and the call still issues the write burst, the
  command word to the command register, and returns the size of the result, 8, not an
  error.
\<close>

theorem execute_cmd_unresolved_gsid_r_writes:
  "fst (resolve_gsid example_kernel (gsid_r format4_buf) 12 2) = 0
   \<and> map_option (map_sum id (\<lambda>out. (ret out, writes out)))
         (execute_cmd spu_h_example example_kernel format4_buf 2)
       = Some (Inr (8, [(0x30, 0x0C000201)]))"
  by (simp add: execute_cmd_def alloc_rslt_def init_burst_w_def init_burst_r_def alloc_burst_def
      poll_example example_kernel_simps spu_h_example_simps format4_buf_def set_rsltfrmt_def
      writes_def set_cmd_w_def example_regs_def)

text \<open>
  Claim C9. On the hardware path the decoding of a result of format 1 or 2 stores the
  status Ok, whatever the burst that was read holds; the decoding never stores Error (a
  result that has the status Error after it is the unchanged result it was given); and
  so every call that completes its poll and its read burst, which no ADDS command does,
  returns a result with the status Ok.
\<close>

theorem set_rsltfrmt_status_OK:
  "(CASE_RSLTFRMT H cmd = Some RSLTFRMT_1 \<or> CASE_RSLTFRMT H cmd = Some RSLTFRMT_2 \<longrightarrow>
      (\<exists>r'. set_rsltfrmt H b cmd (Some r) = Inr (Some r') \<and> rslt_out r' = OK))
   \<and> (set_rsltfrmt H b cmd rb = Inr (Some r1) \<and> rslt_out r1 = ERR \<longrightarrow> rb = Some r1)
   \<and> (execute_cmd H K cmd_buf w = Some (Inr out) \<and> Burst_read b' \<in> set (bus out) \<longrightarrow>
        cmd_in cmd_buf AND CMD_MASK H \<noteq> ADDS H \<and> (\<exists>r. res out = Some r \<and> rslt_out r = OK))"
proof (intro conjI impI)
  assume "CASE_RSLTFRMT H cmd = Some RSLTFRMT_1 \<or> CASE_RSLTFRMT H cmd = Some RSLTFRMT_2"
  from set_rsltfrmt_layout [OF this, of b r]
  show "\<exists>r'. set_rsltfrmt H b cmd (Some r) = Inr (Some r') \<and> rslt_out r' = OK" by blast
next
  assume "set_rsltfrmt H b cmd rb = Inr (Some r1) \<and> rslt_out r1 = ERR"
  then show "rb = Some r1" by (blast intro: set_rsltfrmt_no_ERR)
next
  assume a: "execute_cmd H K cmd_buf w = Some (Inr out) \<and> Burst_read b' \<in> set (bus out)"
  then have "bus out \<noteq> []" by auto
  with a show "\<exists>r. res out = Some r \<and> rslt_out r = OK"
    by (blast intro: execute_cmd_completed)
next
  assume a: "execute_cmd H K cmd_buf w = Some (Inr out) \<and> Burst_read b' \<in> set (bus out)"
  show "cmd_in cmd_buf AND CMD_MASK H \<noteq> ADDS H"
  proof
    assume "cmd_in cmd_buf AND CMD_MASK H = ADDS H"
    with a have "bus out = []"
      by (auto simp add: execute_cmd_def Let_def split: option.splits prod.splits)
    with a show False by simp
  qed
qed

theorem set_rsltfrmt_status_OK_witness:
  "CASE_RSLTFRMT spu_h_example 2 = Some RSLTFRMT_1
   \<and> (\<exists>r'. set_rsltfrmt spu_h_example example_burst 2 (Some example_res) = Inr (Some r')
            \<and> rslt_out r' = OK)
   \<and> set_rsltfrmt spu_h_example example_burst 1 (Some example_res) = Inr (Some example_res)
   \<and> rslt_out example_res = ERR
   \<and> (\<exists>out. execute_cmd spu_h_example example_kernel dels_buf 2 = Some (Inr out)
            \<and> (\<exists>b'. Burst_read b' \<in> set (bus out))
            \<and> cmd_in dels_buf AND CMD_MASK spu_h_example \<noteq> ADDS spu_h_example
            \<and> (\<exists>r. res out = Some r \<and> rslt_out r = OK))"
proof -
  have layout: "CASE_RSLTFRMT spu_h_example 2 = Some RSLTFRMT_1"
    by (simp add: spu_h_example_simps)
  have unchanged:
    "set_rsltfrmt spu_h_example example_burst 1 (Some example_res) = Inr (Some example_res)"
    "rslt_out example_res = ERR"
    by (simp_all add: set_rsltfrmt_def spu_h_example_simps example_res_def)
  have "\<exists>out. execute_cmd spu_h_example example_kernel dels_buf 2 = Some (Inr out)
            \<and> (\<exists>b'. Burst_read b' \<in> set (bus out))"
    by (simp add: execute_cmd_def alloc_rslt_def init_burst_w_def init_burst_r_def alloc_burst_def
      poll_example example_kernel_simps spu_h_example_simps dels_buf_def set_rsltfrmt_def
      set_cmd_w_def)
  then obtain out b' where run: "execute_cmd spu_h_example example_kernel dels_buf 2 = Some (Inr out)"
    and rd: "Burst_read b' \<in> set (bus out)" by blast
  note inst = set_rsltfrmt_status_OK [where H = spu_h_example]
  from inst [where cmd = 2 and b = example_burst and r = example_res, THEN conjunct1] layout
  have dec: "\<exists>r'. set_rsltfrmt spu_h_example example_burst 2 (Some example_res) = Inr (Some r')
            \<and> rslt_out r' = OK" by blast
  from inst [where K = example_kernel and cmd_buf = dels_buf and w = 2 and out = out and b' = b',
            THEN conjunct2, THEN conjunct2] run rd
  have "cmd_in dels_buf AND CMD_MASK spu_h_example \<noteq> ADDS spu_h_example
            \<and> (\<exists>r. res out = Some r \<and> rslt_out r = OK)" by blast
  with layout unchanged dec run rd show ?thesis by blast
qed

end
